theory Spec2Isabelle
  imports Main "HOL-Library.Word" "HOL-Library.Monad_Syntax"
begin

unbundle bit_operations_syntax

section \<open>Machine types and the hardware timer\<close>

text \<open>
  The library is written for targets where \<^verbatim>\<open>unsigned\<close> is 32 bits wide (all the
  examples in its comments say so), hence \<^verbatim>\<open>8 * sizeof(unsigned)\<close> is 32. Both
  \<^verbatim>\<open>unsigned\<close> and \<^verbatim>\<open>uint32_t\<close> are 32-bit words: \<open>+\<close>, \<open>-\<close> and \<open>*\<close> wrap around
  modulo \<open>2 ^ 32\<close>, \<open>div\<close> is the unsigned division and \<open><\<close> the unsigned comparison.

  The hardware timer is reached through a function pointer of type
  \<^verbatim>\<open>unsigned (*)(void)\<close>. Its result depends on when it is called and on nothing else,
  so it is modelled by the sequence of register values it returns: the \<open>n\<close>-th call
  (counted from 0) returns \<open>fcn n\<close>. The number of calls made so far is kept in the
  state as a ghost counter.
\<close>

type_synonym unsigned = "32 word"
type_synonym uint32_t = "32 word"
type_synonym timer_fn = "nat \<Rightarrow> unsigned"

text \<open>
  A result of type \<open>'a option\<close> is \<open>None\<close> when the C call produces no result: a loop
  that runs forever, or an operation whose behaviour C leaves undefined (division by
  zero, a shift by at least the width of the shifted type).
\<close>

section \<open>The catch-up loops\<close>

text \<open>
  Every \<^verbatim>\<open>while\<close> loop of \<^verbatim>\<open>systime3\<close> (systime.c) and of \<^verbatim>\<open>systime_ms\<close> (systime_ms.c)
  has the shape
  \<^verbatim>\<open>while((now - aligned) > chunk) { aligned += chunk; cnt += inc; }\<close>
  with \<open>now\<close>, \<open>chunk\<close> and \<open>inc\<close> unchanged by the body. \<open>catch_up\<close> is that loop; it
  returns the final values of the two variables the body writes.
\<close>

partial_function (option) catch_up ::
  "unsigned \<Rightarrow> unsigned \<Rightarrow> unsigned \<Rightarrow> unsigned \<Rightarrow> unsigned \<Rightarrow> (unsigned \<times> unsigned) option"
where
  "catch_up now chunk inc aligned cnt =
     (if now - aligned > chunk then catch_up now chunk inc (aligned + chunk) (cnt + inc)
      else Some (aligned, cnt))"

text \<open>One execution of the loop body, and the loop test, for counting iterations.\<close>

definition catch_up_body :: "unsigned \<Rightarrow> unsigned \<Rightarrow> unsigned \<times> unsigned \<Rightarrow> unsigned \<times> unsigned" where
  "catch_up_body chunk inc p = (fst p + chunk, snd p + inc)"

definition catch_up_test :: "unsigned \<Rightarrow> unsigned \<Rightarrow> unsigned \<times> unsigned \<Rightarrow> bool" where
  "catch_up_test now chunk p \<longleftrightarrow> now - fst p > chunk"

section \<open>systime.c and systime.h: the fused packaging\<close>

text \<open>The structure \<^verbatim>\<open>systime3_t\<close>; its members are prefixed with \<open>t_\<close>.\<close>

record systime3_t =
  t_sec :: uint32_t
  t_msec :: unsigned
  t_ticks :: unsigned

text \<open>
  The argument \<^verbatim>\<open>systime3_t* t\<close>: either the null pointer or a pointer to a structure
  of the caller. A call returns, besides its C result, what it stored through the
  pointer: \<open>None\<close> when it stored nothing.
\<close>

datatype pointer = Null | NonNull

text \<open>
  The file-scope variables of systime.c, and the ghost counter of timer reads.
  \<^verbatim>\<open>mask\<close> is named \<open>mask_c\<close> here.
\<close>

record systime_state =
  ticks :: unsigned
  tickmult :: unsigned
  mask_c :: unsigned
  ticks1ms :: unsigned
  ticks10ms :: unsigned
  ticks100ms :: unsigned
  milisec :: unsigned
  sec :: uint32_t
  sec_offset :: uint32_t
  use_hw_systicks :: bool
  last_timer_ticks :: unsigned
  last_systime_ticks :: unsigned
  last_ms :: unsigned
  systickshw :: timer_fn
  hw_reads :: nat

text \<open>A call \<^verbatim>\<open>systickshw()\<close>.\<close>

definition call_systickshw :: "systime_state \<Rightarrow> unsigned \<times> systime_state" where
  "call_systickshw s = (systickshw s (hw_reads s), s\<lparr>hw_reads := Suc (hw_reads s)\<rparr>)"

definition systicks :: "systime_state \<Rightarrow> unsigned \<times> systime_state" where
  "systicks s =
     (if use_hw_systicks s then call_systickshw s
      else
        (let (now, s1) = call_systickshw s;
             diff = (now - last_timer_ticks s1) AND mask_c s1;
             s2 = s1\<lparr>ticks := ticks s1 + diff * tickmult s1\<rparr>;
             s3 = s2\<lparr>last_timer_ticks := now\<rparr>
         in (ticks s3, s3)))"

text \<open>
  \<^verbatim>\<open>mask = (1UL << hw_bits) - 1\<close>, converted to \<^verbatim>\<open>unsigned\<close>. The shift is made in
  \<^verbatim>\<open>unsigned long\<close>, taken here as 64 bits wide; for \<open>hw_bits < 32\<close> a 32-bit
  \<^verbatim>\<open>unsigned long\<close> gives the same mask. A shift by 64 or more is undefined.
\<close>

definition hw_mask :: "unsigned \<Rightarrow> unsigned option" where
  "hw_mask hw_bits =
     (if unat hw_bits < 64 then Some (ucast (push_bit (unat hw_bits) (1 :: 64 word) - 1))
      else None)"

text \<open>
  \<open>div_inst\<close> says whether the file is compiled with \<^verbatim>\<open>SYSTIME_HAVE_DIV_INST\<close>
  (systime.c) or \<^verbatim>\<open>SYSTEM_TIME_HAVE_DIV_INST\<close> (systime_ms.c, systime_sec.c) defined.
  The sources leave it undefined. With it, \<^verbatim>\<open>ticks10ms\<close> and \<^verbatim>\<open>ticks100ms\<close> do not
  exist; the model leaves the two fields alone.
\<close>

definition systime_init ::
  "bool \<Rightarrow> timer_fn \<Rightarrow> unsigned \<Rightarrow> unsigned \<Rightarrow> unsigned \<Rightarrow> systime_state \<Rightarrow> systime_state option"
where
  "systime_init div_inst fcn hw_bits tick_multiplier ticks_for_1ms s =
     do {
       s1 \<leftarrow> (if hw_bits = 32 \<and> tick_multiplier = 1 then Some (s\<lparr>use_hw_systicks := True\<rparr>)
              else do {
                m \<leftarrow> hw_mask hw_bits;
                Some (s\<lparr>use_hw_systicks := False, mask_c := m\<rparr>)
              });
       let s2 = s1\<lparr>tickmult := tick_multiplier\<rparr>;
           s3 = s2\<lparr>systickshw := fcn\<rparr>;
           s4 = s3\<lparr>ticks1ms := ticks_for_1ms\<rparr>;
           s5 = (if div_inst then s4
                 else s4\<lparr>ticks10ms := 10 * ticks_for_1ms, ticks100ms := 100 * ticks_for_1ms\<rparr>)
       in Some (snd (systicks s5))
     }"

text \<open>The two bodies of \<^verbatim>\<open>systime3\<close> between \<^verbatim>\<open>#if\<close> and \<^verbatim>\<open>#endif\<close>.\<close>

definition accumulate_div :: "unsigned \<Rightarrow> systime_state \<Rightarrow> systime_state option" where
  "accumulate_div now s =
     (if ticks1ms s = 0 then None
      else
        (let diff = (now - last_systime_ticks s) div ticks1ms s;
             s1 = s\<lparr>milisec := milisec s + diff\<rparr>;
             s2 = s1\<lparr>last_systime_ticks := last_systime_ticks s1 + diff * ticks1ms s1\<rparr>;
             diff' = (milisec s2 - last_ms s2) div 1000;
             s3 = s2\<lparr>sec := sec s2 + diff'\<rparr>;
             s4 = s3\<lparr>last_ms := last_ms s3 + diff' * 1000\<rparr>
         in Some s4))"

definition accumulate_loop :: "unsigned \<Rightarrow> systime_state \<Rightarrow> systime_state option" where
  "accumulate_loop now s =
     do {
       (l1, m1) \<leftarrow> catch_up now (ticks100ms s) 100 (last_systime_ticks s) (milisec s);
       (l2, m2) \<leftarrow> catch_up now (ticks10ms s) 10 l1 m1;
       (l3, m3) \<leftarrow> catch_up now (ticks1ms s) 1 l2 m2;
       (lm, sc) \<leftarrow> catch_up m3 1000 1 (last_ms s) (sec s);
       Some (s\<lparr>last_systime_ticks := l3, milisec := m3, last_ms := lm, sec := sc\<rparr>)
     }"

definition systime3 ::
  "bool \<Rightarrow> pointer \<Rightarrow> systime_state \<Rightarrow> (unsigned \<times> systime3_t option \<times> systime_state) option"
where
  "systime3 div_inst t s =
     (let (now, s1) = (if use_hw_systicks s then call_systickshw s else systicks s)
      in do {
        s2 \<leftarrow> (if div_inst then accumulate_div now s1 else accumulate_loop now s1);
        Some (milisec s2,
              (if t \<noteq> Null
               then Some \<lparr>t_sec = sec s2 + sec_offset s2, t_msec = milisec s2, t_ticks = now\<rparr>
               else None),
              s2)
      })"

definition systimelast3 :: "pointer \<Rightarrow> systime_state \<Rightarrow> unsigned \<times> systime3_t option \<times> systime_state" where
  "systimelast3 t s =
     (milisec s,
      (if t \<noteq> Null
       then Some \<lparr>t_sec = sec s + sec_offset s, t_msec = milisec s, t_ticks = last_systime_ticks s\<rparr>
       else None),
      s)"


definition systimelast :: "systime_state \<Rightarrow> (uint32_t \<times> systime_state) option" where
  "systimelast s =
     (let (r, w, s') = systimelast3 NonNull s
      in do { t \<leftarrow> w; Some (t_sec t, s') })"

definition systime_adj :: "uint32_t \<Rightarrow> systime_state \<Rightarrow> systime_state" where
  "systime_adj adj s = s\<lparr>sec_offset := sec_offset s + adj\<rparr>"

text \<open>The inline functions of systime.h.\<close>

definition systime_ms_inline :: "bool \<Rightarrow> systime_state \<Rightarrow> (unsigned \<times> systime_state) option" where
  "systime_ms_inline div_inst s =
     do { (r, w, s') \<leftarrow> systime3 div_inst Null s; Some (r, s') }"

definition systimelast_ms :: "systime_state \<Rightarrow> unsigned \<times> systime_state" where
  "systimelast_ms s = (let (r, w, s') = systimelast3 Null s in (r, s'))"


section \<open>systime_tick.c, systime_ms.c, systime_sec.c: the split packaging\<close>

text \<open>
  The value of the function pointer \<^verbatim>\<open>systime_tick_current\<close>: the timer function handed
  to \<^verbatim>\<open>systime_tick_init\<close>, or \<^verbatim>\<open>&systime_tick_internal\<close> (its initial value).
\<close>

datatype tick_fn = Timer timer_fn | Internal

text \<open>
  The file-scope variables of the three files. Names that systime.c uses too carry the
  suffix of their file: \<open>_t\<close> for systime_tick.c, \<open>_m\<close> for systime_ms.c, \<open>_s\<close>
  for systime_sec.c. \<open>timer_reads\<close> is the ghost counter of timer reads.
\<close>

record split_state =
  systickshw_t :: timer_fn
  systime_tick_current :: tick_fn
  last_timer_ticks_t :: unsigned
  systime_curr_ticks :: unsigned
  mask_t :: unsigned
  tickmult_t :: unsigned
  lastsystime_ticks :: unsigned
  ticks1ms_m :: unsigned
  ticks50ms :: unsigned
  systime_curr_ms :: unsigned
  systime_curr_sec :: unsigned
  last_ms_s :: unsigned
  timer_reads :: nat

definition call_timer :: "timer_fn \<Rightarrow> split_state \<Rightarrow> unsigned \<times> split_state" where
  "call_timer f s = (f (timer_reads s), s\<lparr>timer_reads := Suc (timer_reads s)\<rparr>)"

definition systime_tick_internal :: "split_state \<Rightarrow> unsigned \<times> split_state" where
  "systime_tick_internal s =
     (let (now, s1) = call_timer (systickshw_t s) s;
          diff = (now - last_timer_ticks_t s1) AND mask_t s1;
          s2 = s1\<lparr>systime_curr_ticks := systime_curr_ticks s1 + diff * tickmult_t s1\<rparr>;
          s3 = s2\<lparr>last_timer_ticks_t := now\<rparr>
      in (systime_curr_ticks s3, s3))"

definition systime_tick :: "split_state \<Rightarrow> unsigned \<times> split_state" where
  "systime_tick s =
     (case systime_tick_current s of
        Timer f \<Rightarrow> call_timer f s
      | Internal \<Rightarrow> systime_tick_internal s)"

definition systime_tick_init ::
  "timer_fn \<Rightarrow> unsigned \<Rightarrow> unsigned \<Rightarrow> split_state \<Rightarrow> split_state option"
where
  "systime_tick_init fcn hw_bits tick_multiplier s =
     do {
       s1 \<leftarrow> (if hw_bits = 32 \<and> tick_multiplier = 1
              then Some (s\<lparr>systime_tick_current := Timer fcn\<rparr>)
              else
                (let sa = s\<lparr>systime_tick_current := Internal\<rparr>;
                     sb = sa\<lparr>tickmult_t := tick_multiplier\<rparr>;
                     sc = sb\<lparr>systickshw_t := fcn\<rparr>
                 in do { m \<leftarrow> hw_mask hw_bits; Some (sc\<lparr>mask_t := m\<rparr>) }));
       Some (snd (systime_tick s1))
     }"

definition systime_ms :: "bool \<Rightarrow> split_state \<Rightarrow> (unsigned \<times> split_state) option" where
  "systime_ms div_inst s =
     (let (now, s1) = systime_tick s
      in if div_inst
         then
           (if ticks1ms_m s1 = 0 then None
            else
              (let diff = (now - lastsystime_ticks s1) div ticks1ms_m s1;
                   s2 = s1\<lparr>systime_curr_ms := systime_curr_ms s1 + diff\<rparr>;
                   s3 = s2\<lparr>lastsystime_ticks := lastsystime_ticks s2 + diff * ticks1ms_m s2\<rparr>
               in Some (systime_curr_ms s3, s3)))
         else
           do {
             (l1, m1) \<leftarrow> catch_up now (ticks50ms s1) 50 (lastsystime_ticks s1) (systime_curr_ms s1);
             (l2, m2) \<leftarrow> catch_up now (ticks1ms_m s1) 1 l1 m1;
             Some (m2, s1\<lparr>lastsystime_ticks := l2, systime_curr_ms := m2\<rparr>)
           })"

definition systime_time_init :: "bool \<Rightarrow> unsigned \<Rightarrow> split_state \<Rightarrow> split_state option" where
  "systime_time_init div_inst ticks_for_1ms s =
     (let s1 = s\<lparr>ticks1ms_m := ticks_for_1ms\<rparr>;
          s2 = (if div_inst then s1 else s1\<lparr>ticks50ms := 50 * ticks_for_1ms\<rparr>)
      in map_option snd (systime_ms div_inst s2))"

text \<open>
  The loop of \<^verbatim>\<open>systime_sec\<close> calls \<^verbatim>\<open>systime_ms()\<close> in its test, so every evaluation of
  the test reads the timer again. The macro is taken as set for the whole build, so
  that \<^verbatim>\<open>systime_sec\<close> calls the \<^verbatim>\<open>systime_ms\<close> of the same build; the loop exists only in
  the build without the macro.
\<close>

partial_function (option) systime_sec_loop :: "split_state \<Rightarrow> split_state option" where
  "systime_sec_loop s =
     do {
       (m, s1) \<leftarrow> systime_ms False s;
       if m - last_ms_s s1 \<ge> 1000
       then systime_sec_loop
              (s1\<lparr>last_ms_s := last_ms_s s1 + 1000, systime_curr_sec := systime_curr_sec s1 + 1\<rparr>)
       else Some s1
     }"

definition systime_sec :: "bool \<Rightarrow> split_state \<Rightarrow> (unsigned \<times> split_state) option" where
  "systime_sec div_inst s =
     (if div_inst
      then
        do {
          (m, s1) \<leftarrow> systime_ms True s;
          let diff = (m - last_ms_s s1) div 1000;
              s2 = s1\<lparr>systime_curr_sec := systime_curr_sec s1 + diff\<rparr>;
              s3 = s2\<lparr>last_ms_s := last_ms_s s2 + diff * 1000\<rparr>
          in Some (systime_curr_sec s3, s3)
        }
      else
        do { s1 \<leftarrow> systime_sec_loop s; Some (systime_curr_sec s1, s1) })"

definition systime_sec_set :: "bool \<Rightarrow> unsigned \<Rightarrow> split_state \<Rightarrow> split_state option" where
  "systime_sec_set div_inst current_time s =
     do {
       (now, s1) \<leftarrow> systime_sec div_inst s;
       Some (if now > current_time
             then s1\<lparr>systime_curr_sec := systime_curr_sec s1 - (now - current_time)\<rparr>
             else s1\<lparr>systime_curr_sec := systime_curr_sec s1 + (current_time - now)\<rparr>)
     }"

text \<open>The macros of systime_tick.h; each expands to one call of the query.\<close>

definition systime_tick_elapsed :: "unsigned \<Rightarrow> split_state \<Rightarrow> unsigned \<times> split_state" where
  "systime_tick_elapsed start s = (let (n, s') = systime_tick s in (n - start, s'))"

definition systime_tick_expired :: "unsigned \<Rightarrow> unsigned \<Rightarrow> split_state \<Rightarrow> bool \<times> split_state" where
  "systime_tick_expired start interval s =
     (let (n, s') = systime_tick s in (n - start \<ge> interval, s'))"

definition systime_ms_elapsed ::
  "bool \<Rightarrow> unsigned \<Rightarrow> split_state \<Rightarrow> (unsigned \<times> split_state) option" where
  "systime_ms_elapsed div_inst start s =
     do { (n, s') \<leftarrow> systime_ms div_inst s; Some (n - start, s') }"

definition systime_ms_expired ::
  "bool \<Rightarrow> unsigned \<Rightarrow> unsigned \<Rightarrow> split_state \<Rightarrow> (bool \<times> split_state) option" where
  "systime_ms_expired div_inst start interval s =
     do { (n, s') \<leftarrow> systime_ms div_inst s; Some (n - start \<ge> interval, s') }"

definition systime_sec_elapsed ::
  "bool \<Rightarrow> unsigned \<Rightarrow> split_state \<Rightarrow> (unsigned \<times> split_state) option" where
  "systime_sec_elapsed div_inst start s =
     do { (n, s') \<leftarrow> systime_sec div_inst s; Some (n - start, s') }"

definition systime_sec_expired ::
  "bool \<Rightarrow> unsigned \<Rightarrow> unsigned \<Rightarrow> split_state \<Rightarrow> (bool \<times> split_state) option" where
  "systime_sec_expired div_inst start interval s =
     do { (n, s') \<leftarrow> systime_sec div_inst s; Some (n - start \<ge> interval, s') }"

section \<open>Start-up states and runs\<close>

text \<open>
  C sets file-scope variables without an initialiser to zero before the program starts.
  The function pointer \<^verbatim>\<open>systickshw\<close> is null then; the init functions store the timer
  function in it before its first call, so the model holds a placeholder there.
\<close>

definition startup :: systime_state where
  "startup =
     \<lparr>ticks = 0, tickmult = 0, mask_c = 0, ticks1ms = 0, ticks10ms = 0, ticks100ms = 0,
      milisec = 0, sec = 0, sec_offset = 0, use_hw_systicks = False, last_timer_ticks = 0,
      last_systime_ticks = 0, last_ms = 0, systickshw = (\<lambda>n. 0), hw_reads = 0\<rparr>"

definition startup_split :: split_state where
  "startup_split =
     \<lparr>systickshw_t = (\<lambda>n. 0), systime_tick_current = Internal, last_timer_ticks_t = 0,
      systime_curr_ticks = 0, mask_t = 0, tickmult_t = 0, lastsystime_ticks = 0,
      ticks1ms_m = 10000, ticks50ms = 0, systime_curr_ms = 0, systime_curr_sec = 0,
      last_ms_s = 0, timer_reads = 0\<rparr>"

text \<open>A timer whose successive reads return the elements of a list, and 0 afterwards.\<close>

definition samples :: "unsigned list \<Rightarrow> timer_fn" where
  "samples xs n = (if n < length xs then xs ! n else 0)"

text \<open>A timer that stands still.\<close>

definition steady :: "unsigned \<Rightarrow> timer_fn" where
  "steady r n = r"

text \<open>The results of \<open>n\<close> successive tick queries.\<close>

fun systicks_run :: "nat \<Rightarrow> systime_state \<Rightarrow> unsigned list" where
  "systicks_run 0 s = []"
| "systicks_run (Suc n) s = (let (r, s') = systicks s in r # systicks_run n s')"

fun systime_tick_run :: "nat \<Rightarrow> split_state \<Rightarrow> unsigned list" where
  "systime_tick_run 0 s = []"
| "systime_tick_run (Suc n) s = (let (r, s') = systime_tick s in r # systime_tick_run n s')"

text \<open>
  The scenario of the specification: a 16-bit timer, multiplier 1, 1000 ticks per
  millisecond. The timer reads 0 when the init function samples it, and then
  0, 500, 65500, 300, one value per query. \<open>scenario_c\<close> and \<open>scenario_split\<close> are the
  states in which \<^verbatim>\<open>systime_init\<close> and \<^verbatim>\<open>systime_tick_init\<close> leave the start-up state
  (\<^verbatim>\<open>systime_tick_init\<close> takes no ticks-per-millisecond constant, so \<^verbatim>\<open>ticks1ms\<close> of
  systime_ms.c keeps its initialiser 10000 there).
\<close>

definition scenario_timer :: timer_fn where
  "scenario_timer = samples [0, 0, 500, 65500, 300]"

definition scenario_c :: systime_state where
  "scenario_c =
     \<lparr>ticks = 0, tickmult = 1, mask_c = 65535, ticks1ms = 1000, ticks10ms = 10000,
      ticks100ms = 100000, milisec = 0, sec = 0, sec_offset = 0, use_hw_systicks = False,
      last_timer_ticks = 0, last_systime_ticks = 0, last_ms = 0, systickshw = scenario_timer,
      hw_reads = 1\<rparr>"

definition scenario_split :: split_state where
  "scenario_split =
     \<lparr>systickshw_t = scenario_timer, systime_tick_current = Internal, last_timer_ticks_t = 0,
      systime_curr_ticks = 0, mask_t = 65535, tickmult_t = 1, lastsystime_ticks = 0,
      ticks1ms_m = 10000, ticks50ms = 0, systime_curr_ms = 0, systime_curr_sec = 0,
      last_ms_s = 0, timer_reads = 1\<rparr>"

text \<open>
  A state of the split packaging with a pass-through timer that reads 44, one tick per
  millisecond, and a second stage 44000 ms behind: in the build that divides, the tick,
  millisecond and second queries all return 44.
\<close>

definition wrapped_split :: split_state where
  "wrapped_split =
     \<lparr>systickshw_t = steady 44, systime_tick_current = Timer (steady 44), last_timer_ticks_t = 0,
      systime_curr_ticks = 0, mask_t = 0, tickmult_t = 0, lastsystime_ticks = 0,
      ticks1ms_m = 1, ticks50ms = 50, systime_curr_ms = 0, systime_curr_sec = 0,
      last_ms_s = 4294923340, timer_reads = 0\<rparr>"

text \<open>
  A 16-bit timer with 1000 ticks per millisecond that reads 0 while the init functions
  run and 1000 at the next query: exactly one millisecond later. \<open>one_ms_split\<close> and
  \<open>one_ms_c\<close> are the states the init functions of the two packagings leave, in the
  build named by the argument.
\<close>

definition one_ms_split :: "bool \<Rightarrow> split_state" where
  "one_ms_split div_inst =
     \<lparr>systickshw_t = samples [0, 0, 1000], systime_tick_current = Internal,
      last_timer_ticks_t = 0, systime_curr_ticks = 0, mask_t = 65535, tickmult_t = 1,
      lastsystime_ticks = 0, ticks1ms_m = 1000, ticks50ms = (if div_inst then 0 else 50000),
      systime_curr_ms = 0, systime_curr_sec = 0, last_ms_s = 0, timer_reads = 2\<rparr>"

definition one_ms_c :: "bool \<Rightarrow> systime_state" where
  "one_ms_c div_inst =
     \<lparr>ticks = 0, tickmult = 1, mask_c = 65535, ticks1ms = 1000,
      ticks10ms = (if div_inst then 0 else 10000), ticks100ms = (if div_inst then 0 else 100000),
      milisec = 0, sec = 0, sec_offset = 0, use_hw_systicks = False, last_timer_ticks = 0,
      last_systime_ticks = 0, last_ms = 0, systickshw = samples [0, 1000], hw_reads = 1\<rparr>"

text \<open>
  Predicates on the state of the split packaging, used to state what happens while the
  timer stands still. \<open>timer_steady r s\<close>: from the next read on, the timer function in
  use returns \<open>r\<close> at every read. \<open>tick_synced r s\<close>: moreover the tick widener has already sampled \<open>r\<close>, so that
  \<open>wide_now r s\<close> is the value every further tick query returns. \<open>ms_synced d r s\<close>:
  moreover the millisecond stage of build \<open>d\<close> has nothing left to count.
\<close>

definition timer_steady :: "unsigned \<Rightarrow> split_state \<Rightarrow> bool" where
  "timer_steady r s \<longleftrightarrow>
     (\<forall>n \<ge> timer_reads s.
        (case systime_tick_current s of Timer f \<Rightarrow> f n | Internal \<Rightarrow> systickshw_t s n) = r)"

definition tick_synced :: "unsigned \<Rightarrow> split_state \<Rightarrow> bool" where
  "tick_synced r s \<longleftrightarrow>
     timer_steady r s
     \<and> (case systime_tick_current s of
          Timer f \<Rightarrow> True
        | Internal \<Rightarrow> last_timer_ticks_t s = r)"

definition wide_now :: "unsigned \<Rightarrow> split_state \<Rightarrow> unsigned" where
  "wide_now r s = (case systime_tick_current s of Timer f \<Rightarrow> r | Internal \<Rightarrow> systime_curr_ticks s)"

definition ms_synced :: "bool \<Rightarrow> unsigned \<Rightarrow> split_state \<Rightarrow> bool" where
  "ms_synced d r s \<longleftrightarrow>
     tick_synced r s \<and>
     (if d then wide_now r s - lastsystime_ticks s < ticks1ms_m s
      else \<not> ticks50ms s < wide_now r s - lastsystime_ticks s
         \<and> \<not> ticks1ms_m s < wide_now r s - lastsystime_ticks s)"

text \<open>
  A 32-bit timer (pass-through mode) with \<open>2 ^ 30\<close> ticks per millisecond, which reads 0
  when \<^verbatim>\<open>systime_init\<close> samples it and 5 afterwards. \<open>stuck_c\<close> is the state the init
  function leaves in the build that loops: \<open>100 * 2 ^ 30\<close> is 0 modulo \<open>2 ^ 32\<close>.
\<close>

definition stuck_c :: systime_state where
  "stuck_c =
     \<lparr>ticks = 0, tickmult = 1, mask_c = 0, ticks1ms = 1073741824, ticks10ms = 2147483648,
      ticks100ms = 0, milisec = 0, sec = 0, sec_offset = 0, use_hw_systicks = True,
      last_timer_ticks = 0, last_systime_ticks = 0, last_ms = 0, systickshw = samples [0, 5],
      hw_reads = 1\<rparr>"

text \<open>
  A 16-bit timer with one tick per millisecond that reads 0 while the init functions
  run and stands still at 2500, two and a half seconds later, from then on.
  \<open>still_split\<close> is the state in which \<^verbatim>\<open>systime_tick_init\<close> and \<^verbatim>\<open>systime_time_init(1)\<close>
  leave the start-up state, in the build that loops: two reads are made and nothing is
  counted yet.
\<close>

definition halting_timer :: timer_fn where
  "halting_timer n = (if n < 2 then 0 else 2500)"

definition still_split :: split_state where
  "still_split =
     \<lparr>systickshw_t = halting_timer, systime_tick_current = Internal, last_timer_ticks_t = 0,
      systime_curr_ticks = 0, mask_t = 65535, tickmult_t = 1,
      lastsystime_ticks = 0, ticks1ms_m = 1, ticks50ms = 50,
      systime_curr_ms = 0, systime_curr_sec = 0, last_ms_s = 0, timer_reads = 2\<rparr>"

text \<open>
  A 32-bit timer with one tick per millisecond that advances by exactly 1000 ticks, one
  second, from each read to the next. \<open>racing_split\<close> is the state in which
  \<^verbatim>\<open>systime_tick_init\<close> and \<^verbatim>\<open>systime_time_init(1)\<close> leave the start-up state, in the build
  that loops.
\<close>

definition racing_timer :: timer_fn where
  "racing_timer n = of_nat n * 1000 + 1"

definition racing_split :: split_state where
  "racing_split =
     \<lparr>systickshw_t = (\<lambda>n. 0), systime_tick_current = Timer racing_timer,
      last_timer_ticks_t = 0, systime_curr_ticks = 0, mask_t = 0, tickmult_t = 0,
      lastsystime_ticks = 1000, ticks1ms_m = 1, ticks50ms = 50, systime_curr_ms = 1000,
      systime_curr_sec = 0, last_ms_s = 0, timer_reads = 2\<rparr>"

text \<open>
  A 32-bit timer with one tick per millisecond that advances by 600 ticks from each read
  to the next. \<open>walking_split\<close> is the state in which \<^verbatim>\<open>systime_tick_init\<close> and
  \<^verbatim>\<open>systime_time_init(1)\<close> leave the start-up state, in the build that loops: two reads
  are made, 599 ms are counted and no second yet.
\<close>

definition walking_timer :: timer_fn where
  "walking_timer n = of_nat n * 600"

definition walking_split :: split_state where
  "walking_split =
     \<lparr>systickshw_t = (\<lambda>n. 0), systime_tick_current = Timer walking_timer,
      last_timer_ticks_t = 0, systime_curr_ticks = 0, mask_t = 0, tickmult_t = 0,
      lastsystime_ticks = 599, ticks1ms_m = 1, ticks50ms = 50, systime_curr_ms = 599,
      systime_curr_sec = 0, last_ms_s = 0, timer_reads = 2\<rparr>"

text \<open>
  \<open>tick_advance s n\<close> is the amount by which the wide tick count grows between the reads
  \<open>n\<close> and \<open>n + 1\<close> of the timer. \<open>timer_slow s\<close>: from the next read on, it grows by less
  than 999 milliseconds' worth of ticks between consecutive reads. \<open>wide_last s\<close> is
  the wide tick count of the latest read, and \<open>caught_up s\<close> says that a read has been
  made and that at most \<^verbatim>\<open>ticks1ms\<close> of it is not yet counted in milliseconds, which is
  how a millisecond query of the build that loops leaves the state.
\<close>

definition tick_advance :: "split_state \<Rightarrow> nat \<Rightarrow> unsigned" where
  "tick_advance s n =
     (case systime_tick_current s of
        Timer f \<Rightarrow> f (Suc n) - f n
      | Internal \<Rightarrow> ((systickshw_t s (Suc n) - systickshw_t s n) AND mask_t s) * tickmult_t s)"

definition timer_slow :: "split_state \<Rightarrow> bool" where
  "timer_slow s \<longleftrightarrow>
     (\<forall>n \<ge> timer_reads s. unat (tick_advance s n) < 999 * unat (ticks1ms_m s))"

definition wide_last :: "split_state \<Rightarrow> unsigned" where
  "wide_last s =
     (case systime_tick_current s of
        Timer f \<Rightarrow> f (timer_reads s - 1)
      | Internal \<Rightarrow> systime_curr_ticks s)"

definition caught_up :: "split_state \<Rightarrow> bool" where
  "caught_up s \<longleftrightarrow>
     0 < timer_reads s
     \<and> (case systime_tick_current s of
          Timer f \<Rightarrow> True
        | Internal \<Rightarrow> last_timer_ticks_t s = systickshw_t s (timer_reads s - 1))
     \<and> wide_last s - lastsystime_ticks s \<le> ticks1ms_m s"

text \<open>
  The state \<^verbatim>\<open>systime_init\<close> leaves, in the build that loops, for a 16-bit timer with 1000
  ticks per millisecond that reads 0 during the init call and 2500 at the next query:
  two and a half milliseconds later.
\<close>

definition later_c :: systime_state where
  "later_c =
     \<lparr>ticks = 0, tickmult = 1, mask_c = 65535, ticks1ms = 1000, ticks10ms = 10000,
      ticks100ms = 100000, milisec = 0, sec = 0, sec_offset = 0, use_hw_systicks = False,
      last_timer_ticks = 0, last_systime_ticks = 0, last_ms = 0, systickshw = samples [0, 2500],
      hw_reads = 1\<rparr>"

text \<open>
  \<open>racing s\<close>: the state is in step with \<open>racing_timer\<close>, one read before the next
  iteration of the loop of \<^verbatim>\<open>systime_sec\<close>: the next read finds 1001 uncounted ticks and
  the millisecond counter is 1000 ahead of the aligned one.
\<close>

definition racing :: "split_state \<Rightarrow> bool" where
  "racing s \<longleftrightarrow> systime_tick_current s = Timer racing_timer \<and> ticks1ms_m s = 1 \<and> ticks50ms s = 50
     \<and> racing_timer (timer_reads s) = lastsystime_ticks s + 1001
     \<and> systime_curr_ms s = last_ms_s s + 1000"

section \<open>Facts about the catch-up loop\<close>

lemma catch_up_body_funpow:
  "(catch_up_body chunk inc ^^ k) (a, c) = (a + of_nat k * chunk, c + of_nat k * inc)"
  by (induction k) (simp_all add: catch_up_body_def algebra_simps)

lemma residual_step:
  fixes now aligned chunk :: unsigned
  assumes "chunk < now - aligned"
  shows "unat (now - (aligned + chunk)) = unat (now - aligned) - unat chunk"
proof -
  have le: "chunk \<le> now - aligned" using assms by simp
  have "unat ((now - aligned) - chunk) = unat (now - aligned) - unat chunk"
    using le by (rule unat_sub)
  moreover have "now - (aligned + chunk) = (now - aligned) - chunk" by simp
  ultimately show ?thesis by (simp only:)
qed

lemma catch_up_returns:
  assumes "chunk \<noteq> 0"
  shows "\<exists>k. k \<le> unat (now - aligned) div unat chunk
           \<and> catch_up now chunk inc aligned cnt
               = Some ((catch_up_body chunk inc ^^ k) (aligned, cnt))
           \<and> \<not> catch_up_test now chunk ((catch_up_body chunk inc ^^ k) (aligned, cnt))
           \<and> (\<forall>i<k. catch_up_test now chunk ((catch_up_body chunk inc ^^ i) (aligned, cnt)))"
proof (induction "unat (now - aligned)" arbitrary: aligned cnt rule: less_induct)
  case less
  have cpos: "0 < unat chunk" using assms by (simp add: unat_gt_0)
  show ?case
  proof (cases "chunk < now - aligned")
    case False
    then have "catch_up now chunk inc aligned cnt = Some (aligned, cnt)"
      by (subst catch_up.simps) simp
    with False show ?thesis
      by (intro exI[of _ 0]) (simp add: catch_up_test_def)
  next
    case True
    have lt: "unat chunk < unat (now - aligned)" using True by (simp add: word_less_nat_alt)
    have step: "unat (now - (aligned + chunk)) = unat (now - aligned) - unat chunk"
      by (rule residual_step[OF True])
    then have "unat (now - (aligned + chunk)) < unat (now - aligned)" using cpos lt by simp
    from less[OF this, of "cnt + inc"] obtain k where
      k: "k \<le> unat (now - (aligned + chunk)) div unat chunk"
      and r: "catch_up now chunk inc (aligned + chunk) (cnt + inc)
               = Some ((catch_up_body chunk inc ^^ k) (aligned + chunk, cnt + inc))"
      and e: "\<not> catch_up_test now chunk ((catch_up_body chunk inc ^^ k) (aligned + chunk, cnt + inc))"
      and t: "\<forall>i<k. catch_up_test now chunk ((catch_up_body chunk inc ^^ i) (aligned + chunk, cnt + inc))"
      by blast
    have shift: "(catch_up_body chunk inc ^^ i) (aligned + chunk, cnt + inc)
                   = (catch_up_body chunk inc ^^ Suc i) (aligned, cnt)" for i
      by (simp add: funpow_swap1 catch_up_body_def)
    have "unat (now - aligned) div unat chunk = Suc ((unat (now - aligned) - unat chunk) div unat chunk)"
      using lt cpos by (simp add: le_div_geq)
    then have b: "Suc k \<le> unat (now - aligned) div unat chunk" using k step by simp
    have c: "catch_up now chunk inc aligned cnt = Some ((catch_up_body chunk inc ^^ Suc k) (aligned, cnt))"
      using True r[unfolded shift] by (subst catch_up.simps) simp
    have d: "\<not> catch_up_test now chunk ((catch_up_body chunk inc ^^ Suc k) (aligned, cnt))"
      using e[unfolded shift] .
    have f: "catch_up_test now chunk ((catch_up_body chunk inc ^^ i) (aligned, cnt))" if "i < Suc k" for i
    proof (cases i)
      case 0
      then show ?thesis using True by (simp add: catch_up_test_def)
    next
      case (Suc j)
      then have "j < k" using that by simp
      with t have "catch_up_test now chunk ((catch_up_body chunk inc ^^ j) (aligned + chunk, cnt + inc))"
        by blast
      then show ?thesis unfolding shift Suc .
    qed
    from b c d f show ?thesis by blast
  qed
qed

lemma catch_up_Some:
  assumes "chunk \<noteq> 0"
  shows "\<exists>a c. catch_up now chunk inc aligned cnt = Some (a, c) \<and> now - a \<le> chunk"
proof -
  from catch_up_returns[OF assms, of now aligned inc cnt] obtain k where
    "catch_up now chunk inc aligned cnt = Some ((catch_up_body chunk inc ^^ k) (aligned, cnt))"
    "\<not> catch_up_test now chunk ((catch_up_body chunk inc ^^ k) (aligned, cnt))"
    by blast
  then show ?thesis
    by (cases "(catch_up_body chunk inc ^^ k) (aligned, cnt)") (simp add: catch_up_test_def not_less)
qed

lemma catch_up_exit:
  assumes "catch_up now chunk inc aligned cnt = Some y"
  shows "now - fst y \<le> chunk \<and> unat (now - fst y) \<le> unat (now - aligned)"
  using assms
proof (induction rule: catch_up.raw_induct[rotated 1, consumes 1])
  case (1 catch_up now chunk inc aligned cnt y)
  show ?case
  proof (cases "chunk < now - aligned")
    case True
    with 1 have "now - fst y \<le> chunk \<and> unat (now - fst y) \<le> unat (now - (aligned + chunk))"
      by simp
    then show ?thesis using residual_step[OF True] by auto
  next
    case False
    with 1 show ?thesis by (auto simp: not_less)
  qed
qed

lemma catch_up_done:
  "\<not> chunk < now - aligned \<Longrightarrow> catch_up now chunk inc aligned cnt = Some (aligned, cnt)"
  by (subst catch_up.simps) simp

section \<open>The tick widener\<close>

lemma uint_and_low_bits:
  fixes x :: unsigned
  shows "uint (x AND (2 ^ W - 1)) = uint x mod 2 ^ W"
proof -
  have "x AND (2 ^ W - 1) = take_bit W x"
    by (simp add: take_bit_eq_mask mask_eq_exp_minus_1)
  moreover have "uint (take_bit W x) = take_bit W (uint x)"
    by (rule unsigned_take_bit_eq)
  moreover have "take_bit W (uint x) = uint x mod 2 ^ W"
    by (rule take_bit_eq_mod)
  ultimately show ?thesis by simp
qed

lemma widen_diff:
  fixes now lst :: unsigned
  assumes "W \<le> 32"
  shows "uint ((now - lst) AND (2 ^ W - 1)) = (uint now - uint lst) mod 2 ^ W"
proof -
  have "(2::int) ^ W dvd 2 ^ 32" using assms by (rule le_imp_power_dvd)
  then have "((uint now - uint lst) mod 2 ^ 32) mod 2 ^ W = (uint now - uint lst) mod 2 ^ W"
    by (rule mod_mod_cancel)
  moreover have "uint (now - lst) = (uint now - uint lst) mod 2 ^ 32"
    by (simp add: uint_word_ariths)
  ultimately show ?thesis
    by (simp only: uint_and_low_bits)
qed

lemma widen_add:
  fixes acc d m :: unsigned
  shows "uint (acc + d * m) = (uint acc + uint m * uint d) mod 2 ^ 32"
  by (simp add: uint_word_ariths mod_simps mult.commute)

lemma systicks_run_numeral:
  "systicks_run (numeral k) s = (let (r, s') = systicks s in r # systicks_run (pred_numeral k) s')"
  by (simp add: numeral_eq_Suc)

lemma systime_tick_run_numeral:
  "systime_tick_run (numeral k) s =
     (let (r, s') = systime_tick s in r # systime_tick_run (pred_numeral k) s')"
  by (simp add: numeral_eq_Suc)

lemma systicks_widens:
  assumes "W \<le> 32" and "\<not> use_hw_systicks s" and "mask_c s = 2 ^ W - 1"
  shows "uint (ticks (snd (systicks s))) =
           (uint (ticks s) + uint (tickmult s) *
              ((uint (systickshw s (hw_reads s)) - uint (last_timer_ticks s)) mod 2 ^ W)) mod 2 ^ 32"
    and "last_timer_ticks (snd (systicks s)) = systickshw s (hw_reads s)"
    and "fst (systicks s) = ticks (snd (systicks s))"
  using assms(2,3)
  by (simp_all add: systicks_def call_systickshw_def Let_def widen_add widen_diff[OF assms(1)])

lemma systime_tick_widens:
  assumes "W \<le> 32" and "systime_tick_current u = Internal" and "mask_t u = 2 ^ W - 1"
  shows "uint (systime_curr_ticks (snd (systime_tick u))) =
           (uint (systime_curr_ticks u) + uint (tickmult_t u) *
              ((uint (systickshw_t u (timer_reads u)) - uint (last_timer_ticks_t u)) mod 2 ^ W)) mod 2 ^ 32"
    and "last_timer_ticks_t (snd (systime_tick u)) = systickshw_t u (timer_reads u)"
    and "fst (systime_tick u) = systime_curr_ticks (snd (systime_tick u))"
  using assms(2,3)
  by (simp_all add: systime_tick_def systime_tick_internal_def call_timer_def Let_def widen_add widen_diff[OF assms(1)])

lemma scenario_c_init:
  "systime_init False scenario_timer 16 1 1000 startup = Some scenario_c"
  by (simp add: systime_init_def hw_mask_def startup_def scenario_c_def scenario_timer_def
      samples_def systicks_def call_systickshw_def Let_def)

lemma scenario_split_init:
  "systime_tick_init scenario_timer 16 1 startup_split = Some scenario_split"
  by (simp add: systime_tick_init_def hw_mask_def startup_split_def scenario_split_def
      scenario_timer_def samples_def systime_tick_def systime_tick_internal_def call_timer_def Let_def)

lemma scenario_c_run: "systicks_run 4 scenario_c = [0, 500, 65500, 65836]"
  by (simp add: scenario_c_def scenario_timer_def samples_def systicks_def call_systickshw_def
      Let_def systicks_run_numeral)

lemma scenario_split_run: "systime_tick_run 4 scenario_split = [0, 500, 65500, 65836]"
  by (simp add: scenario_split_def scenario_timer_def samples_def systime_tick_def
      systime_tick_internal_def call_timer_def Let_def systime_tick_run_numeral)

text \<open>
  Claim C4. In non-pass-through mode, with the mask \<open>2 ^ W - 1\<close> of a \<open>W\<close>-bit timer,
  every tick query adds exactly
  \<open>multiplier * ((raw_now - last_raw) mod 2 ^ W)\<close> to the wide tick count (which itself
  wraps at \<open>2 ^ 32\<close>), stores the raw sample as the last one and returns the new count.
  This holds for \<^verbatim>\<open>systicks\<close> of systime.c and for \<^verbatim>\<open>systime_tick\<close> of systime_tick.c.
  In the scenario (16 bits, multiplier 1) the samples 0, 500, 65500, 300, fed one per
  query, give the wide ticks 0, 500, 65500, 65836; the last step adds
  \<open>(300 - 65500) mod 2 ^ 16 = 336\<close>.
\<close>

theorem tick_widener_exact:
  assumes "W \<le> 32"
    and "\<not> use_hw_systicks s" and "mask_c s = 2 ^ W - 1"
    and "systime_tick_current u = Internal" and "mask_t u = 2 ^ W - 1"
  shows "(uint (ticks (snd (systicks s))) =
            (uint (ticks s) + uint (tickmult s) *
               ((uint (systickshw s (hw_reads s)) - uint (last_timer_ticks s)) mod 2 ^ W)) mod 2 ^ 32
          \<and> last_timer_ticks (snd (systicks s)) = systickshw s (hw_reads s)
          \<and> fst (systicks s) = ticks (snd (systicks s)))
       \<and> (uint (systime_curr_ticks (snd (systime_tick u))) =
            (uint (systime_curr_ticks u) + uint (tickmult_t u) *
               ((uint (systickshw_t u (timer_reads u)) - uint (last_timer_ticks_t u)) mod 2 ^ W)) mod 2 ^ 32
          \<and> last_timer_ticks_t (snd (systime_tick u)) = systickshw_t u (timer_reads u)
          \<and> fst (systime_tick u) = systime_curr_ticks (snd (systime_tick u)))
       \<and> systime_init False scenario_timer 16 1 1000 startup = Some scenario_c
       \<and> systicks_run 4 scenario_c = [0, 500, 65500, 65836]
       \<and> systime_tick_init scenario_timer 16 1 startup_split = Some scenario_split
       \<and> systime_tick_run 4 scenario_split = [0, 500, 65500, 65836]
       \<and> (300 - 65500 :: unsigned) AND 65535 = 336"
  using systicks_widens[OF assms(1,2,3)] systime_tick_widens[OF assms(1,4,5)]
    scenario_c_init scenario_c_run scenario_split_init scenario_split_run
  by simp

theorem tick_widener_exact_witness:
  "(16::nat) \<le> 32 \<and> \<not> use_hw_systicks scenario_c \<and> mask_c scenario_c = 2 ^ 16 - 1
   \<and> systime_tick_current scenario_split = Internal \<and> mask_t scenario_split = 2 ^ 16 - 1
   \<and> uint (ticks (snd (systicks scenario_c))) =
        (uint (ticks scenario_c) + uint (tickmult scenario_c) *
           ((uint (systickshw scenario_c (hw_reads scenario_c))
             - uint (last_timer_ticks scenario_c)) mod 2 ^ 16)) mod 2 ^ 32
   \<and> uint (systime_curr_ticks (snd (systime_tick scenario_split))) =
        (uint (systime_curr_ticks scenario_split) + uint (tickmult_t scenario_split) *
           ((uint (systickshw_t scenario_split (timer_reads scenario_split))
             - uint (last_timer_ticks_t scenario_split)) mod 2 ^ 16)) mod 2 ^ 32"
proof -
  have h: "(16::nat) \<le> 32" "\<not> use_hw_systicks scenario_c" "mask_c scenario_c = 2 ^ 16 - 1"
    "systime_tick_current scenario_split = Internal" "mask_t scenario_split = 2 ^ 16 - 1"
    by (simp_all add: scenario_c_def scenario_split_def)
  from tick_widener_exact[OF h] h show ?thesis by blast
qed

section \<open>The queries of systime.c\<close>

lemma accumulate_loop_returns:
  assumes "ticks100ms s \<noteq> 0" and "ticks10ms s \<noteq> 0" and "ticks1ms s \<noteq> 0"
  shows "\<exists>s'. accumulate_loop now s = Some s'"
proof -
  obtain l1 m1 where 1: "catch_up now (ticks100ms s) 100 (last_systime_ticks s) (milisec s) = Some (l1, m1)"
    using catch_up_Some[OF assms(1)] by blast
  obtain l2 m2 where 2: "catch_up now (ticks10ms s) 10 l1 m1 = Some (l2, m2)"
    using catch_up_Some[OF assms(2)] by blast
  obtain l3 m3 where 3: "catch_up now (ticks1ms s) 1 l2 m2 = Some (l3, m3)"
    using catch_up_Some[OF assms(3)] by blast
  obtain lm sc where 4: "catch_up m3 1000 1 (last_ms s) (sec s) = Some (lm, sc)"
    using catch_up_Some[of 1000] by fastforce
  show ?thesis by (simp add: accumulate_loop_def 1 2 3 4)
qed

lemma systime3_pointer:
  "systime3 d Null s = map_option (\<lambda>(r, w, s'). (r, None, s')) (systime3 d NonNull s)"
  by (simp add: systime3_def Let_def split: prod.splits bind_splits)

lemma systime3_result:
  "systime3 d t s = Some (r, w, s') \<Longrightarrow> r = milisec s' \<and> (t = Null \<longrightarrow> w = None)"
  by (auto simp: systime3_def Let_def split: prod.splits bind_splits if_splits)

lemma systime3_returns:
  assumes "if d then ticks1ms s \<noteq> 0
           else ticks100ms s \<noteq> 0 \<and> ticks10ms s \<noteq> 0 \<and> ticks1ms s \<noteq> 0"
  shows "\<exists>r w s'. systime3 d t s = Some (r, w, s')"
proof -
  obtain now s1 where q: "(if use_hw_systicks s then call_systickshw s else systicks s) = (now, s1)"
    by (cases "if use_hw_systicks s then call_systickshw s else systicks s")
  then have cfg: "ticks1ms s1 = ticks1ms s" "ticks10ms s1 = ticks10ms s" "ticks100ms s1 = ticks100ms s"
    by (auto simp: systicks_def call_systickshw_def Let_def split: if_splits)
  show ?thesis
  proof (cases d)
    case True
    with assms cfg show ?thesis
      by (simp add: systime3_def q accumulate_div_def Let_def)
  next
    case False
    with assms cfg obtain s2 where "accumulate_loop now s1 = Some s2"
      using accumulate_loop_returns[of s1 now] by auto
    with False show ?thesis by (simp add: systime3_def q)
  qed
qed

text \<open>
  Claim C8. \<^verbatim>\<open>systimelast3\<close> leaves every variable of systime.c as it is, so a second
  "last" query (with the same or another pointer argument) gives what the first one
  gave: the triple \<open>sec + sec_offset\<close>, \<open>milisec\<close>, \<open>last_systime_ticks\<close> and the result
  \<open>milisec\<close>. The same holds for \<^verbatim>\<open>systimelast\<close> and \<^verbatim>\<open>systimelast_ms\<close>.
\<close>

theorem last_queries_idempotent:
  "snd (snd (systimelast3 t s)) = s
   \<and> systimelast3 t (snd (snd (systimelast3 t' s))) = systimelast3 t s
   \<and> systimelast3 NonNull s
       = (milisec s,
          Some \<lparr>t_sec = sec s + sec_offset s, t_msec = milisec s, t_ticks = last_systime_ticks s\<rparr>,
          s)
   \<and> systimelast s = Some (sec s + sec_offset s, s)
   \<and> systimelast_ms s = (milisec s, s)"
  by (simp add: systimelast3_def systimelast_def systimelast_ms_def)

section \<open>The init functions\<close>

lemma hw_mask_eq: "unat hw_bits < 64 \<Longrightarrow> hw_mask hw_bits = Some (2 ^ unat hw_bits - 1)"
proof -
  have "(ucast (push_bit n (1 :: 64 word) - 1) :: unsigned) = 2 ^ n - 1" if "n < 64" for n
    using that
    by (simp add: push_bit_eq_mult flip: mask_eq_exp_minus_1) (simp add: bit_eq_iff bit_simps)
  then show "unat hw_bits < 64 \<Longrightarrow> hw_mask hw_bits = Some (2 ^ unat hw_bits - 1)"
    by (simp add: hw_mask_def)
qed

section \<open>Elapsed and expired\<close>

lemma elapsed_exact:
  fixes n start interval :: unsigned
  assumes "0 \<le> e" and "e < 2 ^ 32" and "uint n = (uint start + e) mod 2 ^ 32"
  shows "uint (n - start) = e" and "interval \<le> n - start \<longleftrightarrow> uint interval \<le> e"
proof -
  have "uint (n - start) = (uint n - uint start) mod 2 ^ 32"
    by (simp add: uint_word_ariths)
  also have "\<dots> = ((uint start + e) mod 2 ^ 32 - uint start) mod 2 ^ 32"
    by (simp only: assms(3))
  also have "\<dots> = e mod 2 ^ 32"
    by (simp add: mod_simps)
  also have "\<dots> = e" using assms(1,2) by simp
  finally show 1: "uint (n - start) = e" .
  show "interval \<le> n - start \<longleftrightarrow> uint interval \<le> e"
    by (simp add: word_le_def 1)
qed

lemma wrapped_split_tick:
  "systime_tick wrapped_split = (44, wrapped_split\<lparr>timer_reads := 1\<rparr>)"
  by (simp add: wrapped_split_def systime_tick_def call_timer_def steady_def)

lemma wrapped_split_ms:
  "systime_ms True wrapped_split
     = Some (44, wrapped_split\<lparr>timer_reads := 1, systime_curr_ms := 44, lastsystime_ticks := 44\<rparr>)"
  by (simp add: wrapped_split_def systime_ms_def systime_tick_def call_timer_def steady_def Let_def)

lemma wrapped_split_sec:
  "systime_sec True wrapped_split
     = Some (44, wrapped_split\<lparr>timer_reads := 1, systime_curr_ms := 44, lastsystime_ticks := 44,
                                systime_curr_sec := 44, last_ms_s := 44\<rparr>)"
  by (simp add: systime_sec_def wrapped_split_ms Let_def) (simp add: wrapped_split_def)

text \<open>
  Claim C9. The elapsed and expired macros subtract the start value from the value the
  query returns, in 32-bit unsigned arithmetic. If the counter has advanced by \<open>e\<close>
  counts since it read \<open>start\<close>, with \<open>0 \<le> e < 2 ^ 32\<close>, so that the query now returns
  \<open>n = (start + e) mod 2 ^ 32\<close>, then the elapsed macro yields exactly \<open>e\<close>, whether or not
  the counter wrapped in between, and the expired macro yields true iff
  \<open>e \<ge> interval\<close>. This holds for ticks, milliseconds and seconds.
\<close>

theorem elapsed_expired_wraparound:
  fixes n start interval :: unsigned
  assumes "0 \<le> e" and "e < 2 ^ 32" and "uint n = (uint start + e) mod 2 ^ 32"
  shows "(systime_tick s = (n, s')
            \<longrightarrow> (\<exists>x. systime_tick_elapsed start s = (x, s') \<and> uint x = e)
              \<and> systime_tick_expired start interval s = (uint interval \<le> e, s'))
       \<and> (systime_ms d m = Some (n, m')
            \<longrightarrow> (\<exists>x. systime_ms_elapsed d start m = Some (x, m') \<and> uint x = e)
              \<and> systime_ms_expired d start interval m = Some (uint interval \<le> e, m'))
       \<and> (systime_sec d c = Some (n, c')
            \<longrightarrow> (\<exists>x. systime_sec_elapsed d start c = Some (x, c') \<and> uint x = e)
              \<and> systime_sec_expired d start interval c = Some (uint interval \<le> e, c'))"
  using elapsed_exact(1)[OF assms] elapsed_exact(2)[OF assms, of interval]
  by (simp add: systime_tick_elapsed_def systime_tick_expired_def systime_ms_elapsed_def
      systime_ms_expired_def systime_sec_elapsed_def systime_sec_expired_def)



theorem elapsed_expired_wraparound_witness:
  "(0::int) \<le> 300 \<and> (300::int) < 2 ^ 32
   \<and> uint (44 :: unsigned) = (uint (4294967040 :: unsigned) + 300) mod 2 ^ 32
   \<and> systime_tick wrapped_split = (44, wrapped_split\<lparr>timer_reads := 1\<rparr>)
   \<and> systime_ms True wrapped_split
       = Some (44, wrapped_split\<lparr>timer_reads := 1, systime_curr_ms := 44, lastsystime_ticks := 44\<rparr>)
   \<and> systime_sec True wrapped_split
       = Some (44, wrapped_split\<lparr>timer_reads := 1, systime_curr_ms := 44, lastsystime_ticks := 44,
                                  systime_curr_sec := 44, last_ms_s := 44\<rparr>)
   \<and> uint (fst (systime_tick_elapsed 4294967040 wrapped_split)) = 300
   \<and> fst (systime_tick_expired 4294967040 300 wrapped_split)
   \<and> map_option (uint \<circ> fst) (systime_ms_elapsed True 4294967040 wrapped_split) = Some 300
   \<and> map_option fst (systime_ms_expired True 4294967040 300 wrapped_split) = Some True
   \<and> map_option (uint \<circ> fst) (systime_sec_elapsed True 4294967040 wrapped_split) = Some 300
   \<and> map_option fst (systime_sec_expired True 4294967040 300 wrapped_split) = Some True"
proof -
  have h: "(0::int) \<le> 300" "(300::int) < 2 ^ 32"
    "uint (44 :: unsigned) = (uint (4294967040 :: unsigned) + 300) mod 2 ^ 32"
    by simp_all
  note q = wrapped_split_tick wrapped_split_ms wrapped_split_sec
  have "((\<exists>x. systime_tick_elapsed 4294967040 wrapped_split = (x, wrapped_split\<lparr>timer_reads := 1\<rparr>)
               \<and> uint x = 300)
         \<and> systime_tick_expired 4294967040 300 wrapped_split
             = (True, wrapped_split\<lparr>timer_reads := 1\<rparr>))
      \<and> ((\<exists>x. systime_ms_elapsed True 4294967040 wrapped_split
                 = Some (x, wrapped_split\<lparr>timer_reads := 1, systime_curr_ms := 44,
                                          lastsystime_ticks := 44\<rparr>)
               \<and> uint x = 300)
         \<and> systime_ms_expired True 4294967040 300 wrapped_split
             = Some (True, wrapped_split\<lparr>timer_reads := 1, systime_curr_ms := 44,
                                          lastsystime_ticks := 44\<rparr>))
      \<and> ((\<exists>x. systime_sec_elapsed True 4294967040 wrapped_split
                 = Some (x, wrapped_split\<lparr>timer_reads := 1, systime_curr_ms := 44,
                       lastsystime_ticks := 44, systime_curr_sec := 44, last_ms_s := 44\<rparr>)
               \<and> uint x = 300)
         \<and> systime_sec_expired True 4294967040 300 wrapped_split
             = Some (True, wrapped_split\<lparr>timer_reads := 1, systime_curr_ms := 44,
                       lastsystime_ticks := 44, systime_curr_sec := 44, last_ms_s := 44\<rparr>))"
    using elapsed_expired_wraparound[OF h, where s = wrapped_split and m = wrapped_split
        and c = wrapped_split and d = True and interval = 300
        and s' = "wrapped_split\<lparr>timer_reads := 1\<rparr>"
        and m' = "wrapped_split\<lparr>timer_reads := 1, systime_curr_ms := 44, lastsystime_ticks := 44\<rparr>"
        and c' = "wrapped_split\<lparr>timer_reads := 1, systime_curr_ms := 44,
                       lastsystime_ticks := 44, systime_curr_sec := 44, last_ms_s := 44\<rparr>"]
    by (simp add: q)
  then show ?thesis using h q by fastforce
qed

section \<open>What the tick and millisecond queries leave alone\<close>

lemma systime_tick_frame:
  assumes "systime_tick s = (n, s')"
  shows "ticks1ms_m s' = ticks1ms_m s" "ticks50ms s' = ticks50ms s"
    "systime_curr_sec s' = systime_curr_sec s" "last_ms_s s' = last_ms_s s"
    "systime_curr_ms s' = systime_curr_ms s" "lastsystime_ticks s' = lastsystime_ticks s"
    "systime_tick_current s' = systime_tick_current s" "systickshw_t s' = systickshw_t s"
    "mask_t s' = mask_t s" "tickmult_t s' = tickmult_t s" "timer_reads s' = Suc (timer_reads s)"
  using assms
  by (auto simp: systime_tick_def systime_tick_internal_def call_timer_def Let_def
      split: tick_fn.splits)

lemma systime_ms_frame:
  assumes "systime_ms d s = Some (m, s')"
  shows "m = systime_curr_ms s'" "ticks1ms_m s' = ticks1ms_m s" "ticks50ms s' = ticks50ms s"
    "systime_curr_sec s' = systime_curr_sec s" "last_ms_s s' = last_ms_s s"
    "systime_tick_current s' = systime_tick_current s" "systickshw_t s' = systickshw_t s"
    "mask_t s' = mask_t s" "tickmult_t s' = tickmult_t s" "timer_reads s' = Suc (timer_reads s)"
proof -
  obtain n s1 where t: "systime_tick s = (n, s1)" by (cases "systime_tick s")
  note f = systime_tick_frame[OF t]
  from assms t have "m = systime_curr_ms s' \<and> ticks1ms_m s' = ticks1ms_m s1 \<and> ticks50ms s' = ticks50ms s1
    \<and> systime_curr_sec s' = systime_curr_sec s1 \<and> last_ms_s s' = last_ms_s s1
    \<and> systime_tick_current s' = systime_tick_current s1 \<and> systickshw_t s' = systickshw_t s1
    \<and> mask_t s' = mask_t s1 \<and> tickmult_t s' = tickmult_t s1 \<and> timer_reads s' = timer_reads s1"
    by (auto simp: systime_ms_def Let_def split: if_splits bind_splits)
  with f show "m = systime_curr_ms s'" "ticks1ms_m s' = ticks1ms_m s" "ticks50ms s' = ticks50ms s"
    "systime_curr_sec s' = systime_curr_sec s" "last_ms_s s' = last_ms_s s"
    "systime_tick_current s' = systime_tick_current s" "systickshw_t s' = systickshw_t s"
    "mask_t s' = mask_t s" "tickmult_t s' = tickmult_t s" "timer_reads s' = Suc (timer_reads s)"
    by simp_all
qed

section \<open>The init functions check nothing\<close>

text \<open>
  Claim C3, as stated, fails. No init function has a check, an assertion or a result
  value. With bit width 0, multiplier 0 and 0 ticks per millisecond, \<^verbatim>\<open>systime_init\<close> and
  \<^verbatim>\<open>systime_tick_init\<close> return normally and leave mask 0, multiplier 0 and \<^verbatim>\<open>ticks1ms\<close> 0 in
  place; \<^verbatim>\<open>systime_time_init(0)\<close> returns normally too when the timer has not moved.
\<close>

theorem init_accepts_zero_configuration:
  "systime_init False scenario_timer 0 0 0 startup
     = Some (startup\<lparr>systickshw := scenario_timer, hw_reads := 1\<rparr>)
   \<and> mask_c startup = 0 \<and> tickmult startup = 0 \<and> ticks1ms startup = 0
   \<and> systime_tick_init scenario_timer 0 0 startup_split
       = Some (startup_split\<lparr>systickshw_t := scenario_timer, timer_reads := 1\<rparr>)
   \<and> mask_t startup_split = 0 \<and> tickmult_t startup_split = 0
   \<and> systime_time_init False 0 (startup_split\<lparr>systickshw_t := scenario_timer, timer_reads := 1\<rparr>)
       = Some (startup_split\<lparr>systickshw_t := scenario_timer, timer_reads := 2, ticks1ms_m := 0\<rparr>)"
  by (simp add: systime_init_def hw_mask_def startup_def scenario_timer_def samples_def
      systicks_def call_systickshw_def systime_tick_init_def startup_split_def systime_tick_def
      systime_tick_internal_def call_timer_def systime_time_init_def systime_ms_def
      catch_up_done Let_def)

text \<open>
  Claim C3, amended. The init functions validate nothing. For every timer function,
  every bit width below 64 (zero included), every multiplier and every
  ticks-per-millisecond constant (zero included), \<^verbatim>\<open>systime_init\<close> and
  \<^verbatim>\<open>systime_tick_init\<close> return normally and store the values as given: the multiplier,
  \<^verbatim>\<open>ticks1ms\<close>, and the mask \<open>2 ^ hw_bits - 1\<close> modulo \<open>2 ^ 32\<close> (or the pass-through
  mode for width 32 with multiplier 1). \<^verbatim>\<open>systime_time_init\<close> stores its argument
  unchecked before its first millisecond query: whenever it returns, \<^verbatim>\<open>ticks1ms\<close> is the
  value given.
\<close>

theorem init_stores_unchecked:
  assumes "unat hw_bits < 64"
  shows "(\<exists>s'. systime_init d fcn hw_bits mult t s = Some s'
              \<and> tickmult s' = mult \<and> ticks1ms s' = t \<and> systickshw s' = fcn
              \<and> (if hw_bits = 32 \<and> mult = 1 then use_hw_systicks s'
                  else \<not> use_hw_systicks s' \<and> mask_c s' = 2 ^ unat hw_bits - 1))
       \<and> (\<exists>u'. systime_tick_init fcn hw_bits mult u = Some u'
              \<and> (if hw_bits = 32 \<and> mult = 1 then systime_tick_current u' = Timer fcn
                  else systime_tick_current u' = Internal \<and> systickshw_t u' = fcn
                     \<and> tickmult_t u' = mult \<and> mask_t u' = 2 ^ unat hw_bits - 1))
       \<and> (case systime_time_init d t u of None \<Rightarrow> True | Some u' \<Rightarrow> ticks1ms_m u' = t)"
proof -
  have a: "\<exists>s'. systime_init d fcn hw_bits mult t s = Some s'
              \<and> tickmult s' = mult \<and> ticks1ms s' = t \<and> systickshw s' = fcn
              \<and> (if hw_bits = 32 \<and> mult = 1 then use_hw_systicks s'
                  else \<not> use_hw_systicks s' \<and> mask_c s' = 2 ^ unat hw_bits - 1)"
    by (simp add: systime_init_def hw_mask_eq[OF assms] systicks_def call_systickshw_def Let_def)
  have b: "\<exists>u'. systime_tick_init fcn hw_bits mult u = Some u'
              \<and> (if hw_bits = 32 \<and> mult = 1 then systime_tick_current u' = Timer fcn
                  else systime_tick_current u' = Internal \<and> systickshw_t u' = fcn
                     \<and> tickmult_t u' = mult \<and> mask_t u' = 2 ^ unat hw_bits - 1)"
    by (simp add: systime_tick_init_def hw_mask_eq[OF assms] systime_tick_def
        systime_tick_internal_def call_timer_def Let_def)
  have c: "case systime_time_init d t u of None \<Rightarrow> True | Some u' \<Rightarrow> ticks1ms_m u' = t"
    by (auto simp: systime_time_init_def Let_def split: option.splits dest!: systime_ms_frame(2))
  from a b c show ?thesis by blast
qed

theorem init_stores_unchecked_witness:
  "unat (0 :: unsigned) < 64
   \<and> (\<exists>s'. systime_init False (steady 7) 0 0 0 startup = Some s'
          \<and> tickmult s' = 0 \<and> ticks1ms s' = 0 \<and> \<not> use_hw_systicks s' \<and> mask_c s' = 0)
   \<and> (\<exists>u'. systime_tick_init (steady 7) 0 0 startup_split = Some u'
          \<and> tickmult_t u' = 0 \<and> mask_t u' = 0)"
proof -
  have h: "unat (0 :: unsigned) < 64" by simp
  from init_stores_unchecked[OF h, of False "steady 7" 0 0 startup startup_split] h
  show ?thesis by simp blast
qed

section \<open>The divide path and the loop path\<close>

lemma one_ms_split_init:
  "Option.bind (systime_tick_init (samples [0, 0, 1000]) 16 1 startup_split) (systime_time_init d 1000)
     = Some (one_ms_split d)"
  by (simp add: systime_tick_init_def hw_mask_def startup_split_def samples_def systime_tick_def
      systime_tick_internal_def call_timer_def systime_time_init_def systime_ms_def
      catch_up_done one_ms_split_def Let_def)

lemma one_ms_c_init:
  "systime_init d (samples [0, 1000]) 16 1 1000 startup = Some (one_ms_c d)"
  by (simp add: systime_init_def hw_mask_def startup_def samples_def systicks_def
      call_systickshw_def one_ms_c_def Let_def)

lemma one_ms_split_loop:
  "systime_ms False (one_ms_split False)
     = Some (0, one_ms_split False\<lparr>timer_reads := 3, systime_curr_ticks := 1000,
                                    last_timer_ticks_t := 1000\<rparr>)"
  by (simp add: one_ms_split_def samples_def systime_tick_def systime_tick_internal_def
      call_timer_def systime_ms_def catch_up_done Let_def)

lemma one_ms_split_div:
  "systime_ms True (one_ms_split True)
     = Some (1, one_ms_split True\<lparr>timer_reads := 3, systime_curr_ticks := 1000,
                  last_timer_ticks_t := 1000, systime_curr_ms := 1, lastsystime_ticks := 1000\<rparr>)"
  by (simp add: one_ms_split_def samples_def systime_tick_def systime_tick_internal_def
      call_timer_def systime_ms_def Let_def)

lemma one_ms_c_loop:
  "systime3 False Null (one_ms_c False)
     = Some (0, None, one_ms_c False\<lparr>hw_reads := 2, ticks := 1000, last_timer_ticks := 1000\<rparr>)"
  by (simp add: one_ms_c_def samples_def systicks_def call_systickshw_def systime3_def
      accumulate_loop_def catch_up_done Let_def)

lemma one_ms_c_div:
  "systime3 True Null (one_ms_c True)
     = Some (1, None, one_ms_c True\<lparr>hw_reads := 2, ticks := 1000, last_timer_ticks := 1000,
                          milisec := 1, last_systime_ticks := 1000\<rparr>)"
  by (simp add: one_ms_c_def samples_def systicks_def call_systickshw_def systime3_def
      accumulate_div_def Let_def)

lemma one_ms_c_loop_valid:
  "systime3 False NonNull (one_ms_c False)
     = Some (0, Some \<lparr>t_sec = 0, t_msec = 0, t_ticks = 1000\<rparr>,
             one_ms_c False\<lparr>hw_reads := 2, ticks := 1000, last_timer_ticks := 1000\<rparr>)"
  by (simp add: one_ms_c_def samples_def systicks_def call_systickshw_def systime3_def
      accumulate_loop_def catch_up_done Let_def)

text \<open>
  Claim C1 at a failing input. One millisecond (1000 ticks) after init, the build that
  divides counts \<open>1000 div 1000 = 1\<close> millisecond; the build that loops tests
  \<^verbatim>\<open>(now - last) > ticks1ms\<close>, which is false for 1000, and counts none. This holds for
  \<^verbatim>\<open>systime_ms\<close> of systime_ms.c and for \<^verbatim>\<open>systime3\<close> of systime.c.
\<close>

theorem divide_and_loop_paths_differ:
  "Option.bind (systime_tick_init (samples [0, 0, 1000]) 16 1 startup_split)
       (systime_time_init False 1000) = Some (one_ms_split False)
   \<and> Option.bind (systime_tick_init (samples [0, 0, 1000]) 16 1 startup_split)
       (systime_time_init True 1000) = Some (one_ms_split True)
   \<and> map_option fst (systime_ms False (one_ms_split False)) = Some 0
   \<and> map_option fst (systime_ms True (one_ms_split True)) = Some 1
   \<and> systime_init False (samples [0, 1000]) 16 1 1000 startup = Some (one_ms_c False)
   \<and> systime_init True (samples [0, 1000]) 16 1 1000 startup = Some (one_ms_c True)
   \<and> map_option fst (systime3 False Null (one_ms_c False)) = Some 0
   \<and> map_option fst (systime3 True Null (one_ms_c True)) = Some 1"
  by (simp add: one_ms_split_init one_ms_c_init one_ms_split_loop one_ms_split_div
      one_ms_c_loop one_ms_c_div)

text \<open>
  Claim C2 at a failing input. After the same query in the build that loops, the
  residual \<open>wide_ticks - last_aligned_tick\<close> is 1000, which is \<^verbatim>\<open>ticks1ms\<close> and not less:
  a whole millisecond stays uncounted.
\<close>

theorem loop_leaves_whole_millisecond:
  "(case systime_ms False (one_ms_split False) of
      None \<Rightarrow> False
    | Some (m, s') \<Rightarrow> m = 0 \<and> ticks1ms_m s' = 1000
        \<and> systime_curr_ticks s' - lastsystime_ticks s' = 1000
        \<and> \<not> systime_curr_ticks s' - lastsystime_ticks s' < ticks1ms_m s')
   \<and> (case systime3 False NonNull (one_ms_c False) of
      None \<Rightarrow> False
    | Some (m, w, s') \<Rightarrow> m = 0 \<and> ticks1ms s' = 1000
        \<and> map_option t_ticks w = Some 1000 \<and> ticks s' - last_systime_ticks s' = 1000
        \<and> \<not> ticks s' - last_systime_ticks s' < ticks1ms s')"
  by (simp add: one_ms_split_loop one_ms_c_loop_valid) (simp add: one_ms_split_def one_ms_c_def)

text \<open>
  What each build guarantees after a millisecond query: the divide path leaves a
  residual below \<^verbatim>\<open>ticks1ms\<close>, the loop path a residual of at most \<^verbatim>\<open>ticks1ms\<close>.
\<close>

lemma word_div_residual:
  fixes x t :: unsigned
  assumes "t \<noteq> 0"
  shows "x - (x div t) * t < t"
proof -
  have "x - (x div t) * t = x mod t"
    by (simp add: minus_div_mult_eq_mod)
  moreover have "x mod t < t" using assms by (simp add: word_mod_less_divisor word_greater_zero_iff)
  ultimately show ?thesis by simp
qed

lemma systime_ms_div_residual:
  assumes "ticks1ms_m s \<noteq> 0" and "systime_ms True s = Some (m, s')"
  shows "fst (systime_tick s) - lastsystime_ticks s' < ticks1ms_m s'"
proof -
  obtain n s1 where t: "systime_tick s = (n, s1)" by (cases "systime_tick s")
  have c: "ticks1ms_m s1 = ticks1ms_m s" by (rule systime_tick_frame(1)[OF t])
  have "n - (lastsystime_ticks s1 + (n - lastsystime_ticks s1) div ticks1ms_m s1 * ticks1ms_m s1)
          = (n - lastsystime_ticks s1) - (n - lastsystime_ticks s1) div ticks1ms_m s1 * ticks1ms_m s1"
    by simp
  also have "\<dots> < ticks1ms_m s1"
    using assms(1) c word_div_residual[of "ticks1ms_m s1" "n - lastsystime_ticks s1"] by simp
  finally show ?thesis using assms c t
    by (auto simp: systime_ms_def Let_def split: if_splits)
qed

lemma systime_ms_loop_residual:
  assumes "systime_ms False s = Some (m, s')"
  shows "fst (systime_tick s) - lastsystime_ticks s' \<le> ticks1ms_m s'"
proof -
  obtain n s1 where t: "systime_tick s = (n, s1)" by (cases "systime_tick s")
  from assms t obtain l1 m1 l2 m2 where
    "catch_up n (ticks1ms_m s1) 1 l1 m1 = Some (l2, m2)"
    and "s' = s1\<lparr>lastsystime_ticks := l2, systime_curr_ms := m2\<rparr>"
    by (auto simp: systime_ms_def Let_def split: bind_splits)
  then show ?thesis using catch_up_exit[of n "ticks1ms_m s1" 1 l1 m1 "(l2, m2)"] t by simp
qed

section \<open>While the timer stands still\<close>

lemma timer_steady_read:
  assumes "timer_steady r s"
  shows "(case systime_tick_current s of Timer f \<Rightarrow> f (timer_reads s)
          | Internal \<Rightarrow> systickshw_t s (timer_reads s)) = r"
  using assms by (simp add: timer_steady_def)

lemma tick_synced_query:
  assumes "tick_synced r s"
  shows "systime_tick s = (wide_now r s, s\<lparr>timer_reads := Suc (timer_reads s)\<rparr>)"
proof -
  from assms have "timer_steady r s" by (simp add: tick_synced_def)
  from timer_steady_read[OF this] assms show ?thesis
    by (cases s)
      (auto simp: tick_synced_def wide_now_def systime_tick_def systime_tick_internal_def
        call_timer_def Let_def split: tick_fn.splits)
qed

lemma tick_sync_after:
  assumes "timer_steady r s" and "systime_tick s = (n, s')"
  shows "tick_synced r s'" and "wide_now r s' = n"
  using assms timer_steady_read[OF assms(1)]
  by (auto simp: timer_steady_def tick_synced_def wide_now_def systime_tick_def
      systime_tick_internal_def call_timer_def Let_def split: tick_fn.splits)

lemma tick_synced_steady: "tick_synced r s \<Longrightarrow> timer_steady r s"
  by (simp add: tick_synced_def)

lemma timer_steady_update [simp]:
  "timer_steady r (s\<lparr>lastsystime_ticks := a\<rparr>) = timer_steady r s"
  "timer_steady r (s\<lparr>systime_curr_ms := b\<rparr>) = timer_steady r s"
  "timer_steady r (s\<lparr>last_ms_s := c\<rparr>) = timer_steady r s"
  "timer_steady r (s\<lparr>systime_curr_sec := e\<rparr>) = timer_steady r s"
  by (simp_all add: timer_steady_def split: tick_fn.splits)

lemma tick_synced_update [simp]:
  "tick_synced r (s\<lparr>lastsystime_ticks := a\<rparr>) = tick_synced r s"
  "tick_synced r (s\<lparr>systime_curr_ms := b\<rparr>) = tick_synced r s"
  "tick_synced r (s\<lparr>last_ms_s := c\<rparr>) = tick_synced r s"
  "tick_synced r (s\<lparr>systime_curr_sec := e\<rparr>) = tick_synced r s"
  by (simp_all add: tick_synced_def split: tick_fn.splits)

lemma tick_synced_reads:
  "tick_synced r s \<Longrightarrow> timer_reads s \<le> k \<Longrightarrow> tick_synced r (s\<lparr>timer_reads := k\<rparr>)"
  by (simp add: tick_synced_def timer_steady_def split: tick_fn.splits)

lemma wide_now_update [simp]:
  "wide_now r (s\<lparr>lastsystime_ticks := a\<rparr>) = wide_now r s"
  "wide_now r (s\<lparr>systime_curr_ms := b\<rparr>) = wide_now r s"
  "wide_now r (s\<lparr>last_ms_s := c\<rparr>) = wide_now r s"
  "wide_now r (s\<lparr>systime_curr_sec := e\<rparr>) = wide_now r s"
  "wide_now r (s\<lparr>timer_reads := k\<rparr>) = wide_now r s"
  by (simp_all add: wide_now_def split: tick_fn.splits)

lemma ms_synced_query:
  assumes "ms_synced d r s"
  shows "systime_ms d s = Some (systime_curr_ms s, s\<lparr>timer_reads := Suc (timer_reads s)\<rparr>)"
proof -
  from assms have t: "systime_tick s = (wide_now r s, s\<lparr>timer_reads := Suc (timer_reads s)\<rparr>)"
    by (simp add: ms_synced_def tick_synced_query)
  show ?thesis
  proof (cases d)
    case True
    with assms have lt: "wide_now r s - lastsystime_ticks s < ticks1ms_m s"
      by (simp add: ms_synced_def)
    then have nz: "ticks1ms_m s \<noteq> 0" by auto
    from lt have "(wide_now r s - lastsystime_ticks s) div ticks1ms_m s = 0"
      by (rule div_word_less)
    with True nz show ?thesis
      by (simp add: systime_ms_def t Let_def)
  next
    case False
    with assms show ?thesis
      by (simp add: systime_ms_def t ms_synced_def catch_up_done Let_def)
  qed
qed

lemma ms_sync_after:
  assumes "timer_steady r s" and "systime_ms d s = Some (m, s')"
  shows "ms_synced d r s'"
proof -
  obtain n s1 where t: "systime_tick s = (n, s1)" by (cases "systime_tick s")
  note y = tick_sync_after[OF assms(1) t]
  show ?thesis
  proof (cases d)
    case True
    with assms(2) t have nz: "ticks1ms_m s \<noteq> 0"
      by (auto simp: systime_ms_def Let_def systime_tick_frame(1)[OF t] split: if_splits)
    from systime_ms_div_residual[OF nz] assms(2) True t
    have r: "n - lastsystime_ticks s' < ticks1ms_m s'" by simp
    from assms(2) t True have "tick_synced r s' = tick_synced r s1" "wide_now r s' = wide_now r s1"
      by (auto simp: systime_ms_def Let_def split: if_splits)
    with y r True show ?thesis by (simp add: ms_synced_def)
  next
    case False
    with assms(2) t obtain l1 m1 l2 m2 where
      c1: "catch_up n (ticks50ms s1) 50 (lastsystime_ticks s1) (systime_curr_ms s1) = Some (l1, m1)"
      and c2: "catch_up n (ticks1ms_m s1) 1 l1 m1 = Some (l2, m2)"
      and s': "s' = s1\<lparr>lastsystime_ticks := l2, systime_curr_ms := m2\<rparr>"
      by (auto simp: systime_ms_def Let_def split: bind_splits)
    from catch_up_exit[OF c1] have a: "n - l1 \<le> ticks50ms s1" by simp
    from catch_up_exit[OF c2] have b: "n - l2 \<le> ticks1ms_m s1" "unat (n - l2) \<le> unat (n - l1)"
      by simp_all
    from a b(2) have "n - l2 \<le> ticks50ms s1" by (simp add: word_le_nat_alt)
    with b(1) y s' False show ?thesis
      by (simp add: ms_synced_def not_less)
  qed
qed

lemma ms_synced_sec_update [simp]:
  "ms_synced d r (s\<lparr>last_ms_s := a\<rparr>) = ms_synced d r s"
  "ms_synced d r (s\<lparr>systime_curr_sec := b\<rparr>) = ms_synced d r s"
  by (simp_all add: ms_synced_def)

lemma ms_synced_reads:
  "ms_synced d r s \<Longrightarrow> timer_reads s \<le> k \<Longrightarrow> ms_synced d r (s\<lparr>timer_reads := k\<rparr>)"
  by (simp add: ms_synced_def tick_synced_reads)


lemma ms_synced_steady: "ms_synced d r s \<Longrightarrow> timer_steady r s"
  by (simp add: ms_synced_def tick_synced_steady)

lemma sec_chunk_step:
  fixes x :: unsigned
  assumes "1000 \<le> x"
  shows "unat (x - 1000) = unat x - 1000" and "unat x div 1000 = Suc (unat (x - 1000) div 1000)"
proof -
  have a: "unat (x - 1000) = unat x - unat (1000 :: unsigned)" using assms by (rule unat_sub)
  then show 1: "unat (x - 1000) = unat x - 1000" by simp
  have "1000 \<le> unat x" using assms by (simp add: word_le_nat_alt)
  then show "unat x div 1000 = Suc (unat (x - 1000) div 1000)"
    by (simp add: 1 le_div_geq)
qed

lemma systime_sec_loop_steady:
  assumes "timer_steady r s" and "systime_ms False s = Some (m, s1)"
  shows "systime_sec_loop s =
           Some (s1\<lparr>timer_reads := timer_reads s1 + unat (m - last_ms_s s) div 1000,
                    last_ms_s := last_ms_s s + of_nat (unat (m - last_ms_s s) div 1000) * 1000,
                    systime_curr_sec := systime_curr_sec s + of_nat (unat (m - last_ms_s s) div 1000)\<rparr>)"
  using assms
proof (induction "unat (m - last_ms_s s)" arbitrary: s s1 rule: less_induct)
  case less
  note f = systime_ms_frame[OF less.prems(2)]
  have y: "ms_synced False r s1" by (rule ms_sync_after[OF less.prems])
  show ?case
  proof (cases "1000 \<le> m - last_ms_s s")
    case False
    then have "unat (m - last_ms_s s) div 1000 = 0"
      by (simp add: word_le_nat_alt)
    with False f show ?thesis
      by (subst systime_sec_loop.simps) (simp add: less.prems(2))
  next
    case True
    define s2 where "s2 = s1\<lparr>last_ms_s := last_ms_s s1 + 1000, systime_curr_sec := systime_curr_sec s1 + 1\<rparr>"
    have y2: "ms_synced False r s2" using y by (simp add: s2_def)
    have q: "systime_ms False s2 = Some (m, s2\<lparr>timer_reads := Suc (timer_reads s2)\<rparr>)"
      using ms_synced_query[OF y2] f(1) by (simp add: s2_def)
    have l: "last_ms_s s2 = last_ms_s s + 1000" "systime_curr_sec s2 = systime_curr_sec s + 1"
      "timer_reads s2 = timer_reads s1"
      using f by (simp_all add: s2_def)
    have e: "m - last_ms_s s2 = (m - last_ms_s s) - 1000" by (simp add: l)
    note c = sec_chunk_step[OF True]
    have "unat (m - last_ms_s s2) < unat (m - last_ms_s s)"
      using c(1) True by (simp add: e word_le_nat_alt)
    from less.hyps[OF this ms_synced_steady[OF y2] q]
    have "systime_sec_loop s2 =
           Some (s2\<lparr>timer_reads := Suc (timer_reads s2) + unat (m - last_ms_s s2) div 1000,
                    last_ms_s := last_ms_s s2 + of_nat (unat (m - last_ms_s s2) div 1000) * 1000,
                    systime_curr_sec := systime_curr_sec s2 + of_nat (unat (m - last_ms_s s2) div 1000)\<rparr>)"
      by simp
    then have "systime_sec_loop s2 =
           Some (s1\<lparr>timer_reads := timer_reads s1 + unat (m - last_ms_s s) div 1000,
                    last_ms_s := last_ms_s s + of_nat (unat (m - last_ms_s s) div 1000) * 1000,
                    systime_curr_sec := systime_curr_sec s + of_nat (unat (m - last_ms_s s) div 1000)\<rparr>)"
      by (simp add: l e c(2) algebra_simps) (simp add: s2_def)
    with True f show ?thesis
      by (subst systime_sec_loop.simps) (simp add: less.prems(2) s2_def)
  qed
qed


lemma systime_sec_result:
  "systime_sec d s = Some (c, s') \<Longrightarrow> c = systime_curr_sec s'"
  by (auto simp: systime_sec_def Let_def split: if_splits bind_splits)

lemma systime_sec_steady:
  assumes "timer_steady r s" and "systime_ms d s = Some (m, s1)"
  shows "systime_sec d s =
           Some (systime_curr_sec s + of_nat (unat (m - last_ms_s s) div 1000),
                 s1\<lparr>timer_reads := timer_reads s1 + (if d then 0 else unat (m - last_ms_s s) div 1000),
                    last_ms_s := last_ms_s s + of_nat (unat (m - last_ms_s s) div 1000) * 1000,
                    systime_curr_sec := systime_curr_sec s + of_nat (unat (m - last_ms_s s) div 1000)\<rparr>)"
proof (cases d)
  case True
  note f = systime_ms_frame[OF assms(2)]
  have "(m - last_ms_s s) div 1000 = of_nat (unat (m - last_ms_s s) div 1000)"
    by (simp add: word_arith_nat_div)
  with True assms(2) f show ?thesis
    by (simp add: systime_sec_def Let_def)
next
  case False
  with systime_sec_loop_steady[OF assms(1)] assms(2) show ?thesis
    by (simp add: systime_sec_def)
qed



lemma systime_sec_set_direct:
  "systime_sec_set d T s =
     map_option (\<lambda>(c, s'). s'\<lparr>systime_curr_sec := systime_curr_sec s' + (T - systime_curr_sec s')\<rparr>)
       (systime_sec d s)"
proof (cases "systime_sec d s")
  case None
  then show ?thesis by (simp add: systime_sec_set_def)
next
  case (Some p)
  obtain c s' where p: "p = (c, s')" by (cases p)
  with Some have "c = systime_curr_sec s'" by (simp add: systime_sec_result)
  with Some p show ?thesis by (simp add: systime_sec_set_def)
qed

lemma call_systickshw_offset:
  "call_systickshw (s\<lparr>sec_offset := x\<rparr>)
     = (fst (call_systickshw s), (snd (call_systickshw s))\<lparr>sec_offset := x\<rparr>)"
  by (simp add: call_systickshw_def)

lemma systicks_offset:
  "systicks (s\<lparr>sec_offset := x\<rparr>) = (fst (systicks s), (snd (systicks s))\<lparr>sec_offset := x\<rparr>)"
  by (simp add: systicks_def call_systickshw_def Let_def)

lemma accumulate_div_offset:
  "accumulate_div now (s\<lparr>sec_offset := x\<rparr>)
     = map_option (\<lambda>s'. s'\<lparr>sec_offset := x\<rparr>) (accumulate_div now s)"
  by (simp add: accumulate_div_def Let_def)

lemma accumulate_loop_offset:
  "accumulate_loop now (s\<lparr>sec_offset := x\<rparr>)
     = map_option (\<lambda>s'. s'\<lparr>sec_offset := x\<rparr>) (accumulate_loop now s)"
  by (simp add: accumulate_loop_def split: bind_splits)

lemma systime3_offset:
  "systime3 d t (s\<lparr>sec_offset := x\<rparr>)
     = map_option (\<lambda>(r, w, s'). (r, map_option (\<lambda>tr. tr\<lparr>t_sec := sec s' + x\<rparr>) w, s'\<lparr>sec_offset := x\<rparr>))
         (systime3 d t s)"
  by (cases "if d then accumulate_div (fst (if use_hw_systicks s then call_systickshw s else systicks s))
                          (snd (if use_hw_systicks s then call_systickshw s else systicks s))
              else accumulate_loop (fst (if use_hw_systicks s then call_systickshw s else systicks s))
                          (snd (if use_hw_systicks s then call_systickshw s else systicks s))")
    (simp_all add: systime3_def call_systickshw_offset systicks_offset accumulate_div_offset
      accumulate_loop_offset Let_def split_beta split: if_splits)

lemma systime_tick_sec:
  "systime_tick (s\<lparr>systime_curr_sec := T\<rparr>)
     = (fst (systime_tick s), (snd (systime_tick s))\<lparr>systime_curr_sec := T\<rparr>)"
  by (simp add: systime_tick_def systime_tick_internal_def call_timer_def Let_def
      split: tick_fn.splits)

lemma systime_ms_ignores_sec:
  "systime_ms d (s\<lparr>systime_curr_sec := T\<rparr>)
     = map_option (\<lambda>(m, s'). (m, s'\<lparr>systime_curr_sec := T\<rparr>)) (systime_ms d s)"
  by (simp add: systime_ms_def systime_tick_sec Let_def split_beta split: bind_splits)

section \<open>Setting and adjusting the seconds\<close>



lemma systime3_reports:
  assumes "systime3 d t s = Some (r, w, s')"
  shows "sec_offset s' = sec_offset s" and "w = Some tr \<Longrightarrow> t_sec tr = sec s' + sec_offset s'"
proof -
  obtain now s1 where q: "(if use_hw_systicks s then call_systickshw s else systicks s) = (now, s1)"
    by (cases "if use_hw_systicks s then call_systickshw s else systicks s")
  then have o: "sec_offset s1 = sec_offset s"
    by (auto simp: systicks_def call_systickshw_def Let_def split: if_splits)
  from assms q obtain s2 where a: "(if d then accumulate_div now s1 else accumulate_loop now s1) = Some s2"
    and r: "s' = s2"
    and w: "w = (if t \<noteq> Null
               then Some \<lparr>t_sec = sec s2 + sec_offset s2, t_msec = milisec s2, t_ticks = now\<rparr>
               else None)"
    by (auto simp: systime3_def split: bind_splits)
  from a have "sec_offset s2 = sec_offset s1"
    by (auto simp: accumulate_div_def accumulate_loop_def Let_def split: if_splits bind_splits)
  with o r show "sec_offset s' = sec_offset s" by simp
  show "w = Some tr \<Longrightarrow> t_sec tr = sec s' + sec_offset s'"
    using w r by (auto split: if_splits)
qed

lemma systime3_adj:
  "systime3 d t (systime_adj adj s)
     = map_option (\<lambda>(r, w, s'). (r, map_option (\<lambda>tr. tr\<lparr>t_sec := t_sec tr + adj\<rparr>) w, systime_adj adj s'))
         (systime3 d t s)"
proof (cases "systime3 d t s")
  case None
  then show ?thesis by (simp add: systime_adj_def systime3_offset)
next
  case (Some p)
  obtain r w s' where p: "p = (r, w, s')" by (cases p)
  note f = systime3_reports[OF Some[unfolded p]]
  show ?thesis
  proof (cases w)
    case None
    with Some p f(1) show ?thesis by (simp add: systime_adj_def systime3_offset)
  next
    case (Some tr)
    with \<open>systime3 d t s = Some p\<close> p f(1) f(2)[OF Some] show ?thesis
      by (simp add: systime_adj_def systime3_offset add.assoc)
  qed
qed




text \<open>
  Claim C5. \<^verbatim>\<open>systime_adj\<close> writes \<^verbatim>\<open>sec_offset\<close> and nothing else; a later \<^verbatim>\<open>systime3\<close>
  call does to the adjusted state what it does to the original one, and only the
  seconds it reports differ, by the adjustment. \<^verbatim>\<open>systime_sec_set\<close> is the seconds query
  followed by a write to \<^verbatim>\<open>systime_curr_sec\<close> alone, and the millisecond query does not
  read that variable. While the timer stands still: a set call leaves the wide ticks,
  the millisecond counter and the aligned tick as a plain millisecond query leaves
  them, a set call after such a query leaves them unchanged, and the next millisecond
  query returns the same value as before.
\<close>

theorem seconds_set_leaves_ticks_and_ms:
  assumes "timer_steady r u0" and "systime_ms d u0 = Some (m, u)"
  shows "systime_adj adj s = s\<lparr>sec_offset := sec_offset s + adj\<rparr>
       \<and> ticks (systime_adj adj s) = ticks s \<and> milisec (systime_adj adj s) = milisec s
       \<and> systime3 d t (systime_adj adj s)
           = map_option (\<lambda>(r, w, s'). (r, map_option (\<lambda>tr. tr\<lparr>t_sec := t_sec tr + adj\<rparr>) w,
                                      systime_adj adj s'))
               (systime3 d t s)
       \<and> systime_sec_set d T v
           = map_option (\<lambda>(c, v'). v'\<lparr>systime_curr_sec := T\<rparr>) (systime_sec d v)
       \<and> systime_ms d (v\<lparr>systime_curr_sec := T\<rparr>)
           = map_option (\<lambda>(m, v'). (m, v'\<lparr>systime_curr_sec := T\<rparr>)) (systime_ms d v)
       \<and> (\<exists>w'. systime_sec_set d T u0 = Some w'
              \<and> systime_curr_ticks w' = systime_curr_ticks u
              \<and> systime_curr_ms w' = systime_curr_ms u
              \<and> lastsystime_ticks w' = lastsystime_ticks u
              \<and> map_option fst (systime_ms d w') = Some m)
       \<and> (\<exists>u'. systime_sec_set d T u = Some u'
              \<and> systime_curr_ticks u' = systime_curr_ticks u
              \<and> systime_curr_ms u' = systime_curr_ms u
              \<and> lastsystime_ticks u' = lastsystime_ticks u
              \<and> fst (systime_tick u') = fst (systime_tick u)
              \<and> map_option fst (systime_ms d u) = Some m
              \<and> map_option fst (systime_ms d u') = Some m)"
proof -
  have a: "systime_adj adj s = s\<lparr>sec_offset := sec_offset s + adj\<rparr>
       \<and> ticks (systime_adj adj s) = ticks s \<and> milisec (systime_adj adj s) = milisec s"
    by (simp add: systime_adj_def)
  have b: "systime_sec_set d T v
           = map_option (\<lambda>(c, v'). v'\<lparr>systime_curr_sec := T\<rparr>) (systime_sec d v)"
    by (simp add: systime_sec_set_direct)
  have y: "ms_synced d r u" by (rule ms_sync_after[OF assms])
  have mu: "systime_curr_ms u = m" using systime_ms_frame(1)[OF assms(2)] by simp
  note q = ms_synced_query[OF y]
  define k where "k = unat (systime_curr_ms u - last_ms_s u) div 1000"
  define u' where "u' = u\<lparr>timer_reads := Suc (timer_reads u) + (if d then 0 else k),
                    last_ms_s := last_ms_s u + of_nat k * 1000,
                    systime_curr_sec := T\<rparr>"
  have "systime_sec d u = Some (systime_curr_sec u + of_nat k,
          u\<lparr>timer_reads := Suc (timer_reads u) + (if d then 0 else k),
            last_ms_s := last_ms_s u + of_nat k * 1000,
            systime_curr_sec := systime_curr_sec u + of_nat k\<rparr>)"
    using systime_sec_steady[OF ms_synced_steady[OF y] q] by (simp add: k_def)
  then have st: "systime_sec_set d T u = Some u'"
    by (simp add: systime_sec_set_direct u'_def)
  have y': "ms_synced d r u'" using y by (simp add: u'_def ms_synced_reads)
  have "tick_synced r u" "tick_synced r u'" using y y' by (simp_all add: ms_synced_def)
  then have "fst (systime_tick u) = wide_now r u" "fst (systime_tick u') = wide_now r u'"
    by (simp_all add: tick_synced_query)
  moreover have "wide_now r u' = wide_now r u" by (simp add: u'_def)
  ultimately have t1: "fst (systime_tick u') = fst (systime_tick u)" by simp
  have q': "map_option fst (systime_ms d u') = Some m"
    using ms_synced_query[OF y'] mu by (simp add: u'_def)
  have q0: "map_option fst (systime_ms d u) = Some m"
    using q mu by simp
  have c: "\<exists>u'. systime_sec_set d T u = Some u'
              \<and> systime_curr_ticks u' = systime_curr_ticks u
              \<and> systime_curr_ms u' = systime_curr_ms u
              \<and> lastsystime_ticks u' = lastsystime_ticks u
              \<and> fst (systime_tick u') = fst (systime_tick u)
              \<and> map_option fst (systime_ms d u) = Some m
              \<and> map_option fst (systime_ms d u') = Some m"
    using st t1 q' q0 by (intro exI[of _ u']) (simp add: u'_def)
  define j where "j = unat (m - last_ms_s u0) div 1000"
  define w' where "w' = u\<lparr>timer_reads := timer_reads u + (if d then 0 else j),
                    last_ms_s := last_ms_s u0 + of_nat j * 1000,
                    systime_curr_sec := T\<rparr>"
  have "systime_sec_set d T u0 = Some w'"
    using systime_sec_steady[OF assms] by (simp add: systime_sec_set_direct w'_def j_def)
  moreover have "ms_synced d r w'" using y by (simp add: w'_def ms_synced_reads)
  then have "map_option fst (systime_ms d w') = Some m"
    using mu by (simp add: ms_synced_query w'_def)
  ultimately have g: "\<exists>w'. systime_sec_set d T u0 = Some w'
              \<and> systime_curr_ticks w' = systime_curr_ticks u
              \<and> systime_curr_ms w' = systime_curr_ms u
              \<and> lastsystime_ticks w' = lastsystime_ticks u
              \<and> map_option fst (systime_ms d w') = Some m"
    by (intro exI[of _ w']) (simp add: w'_def)
  note e = systime3_adj[of d t adj s]
  note f = systime_ms_ignores_sec[where d = d and s = v and T = T]
  from a b c e f g show ?thesis by blast
qed

theorem seconds_set_leaves_ticks_and_ms_witness:
  "timer_steady 44 wrapped_split
   \<and> systime_ms True wrapped_split
       = Some (44, wrapped_split\<lparr>timer_reads := 1, systime_curr_ms := 44, lastsystime_ticks := 44\<rparr>)
   \<and> (\<exists>u'. systime_sec_set True 7
              (wrapped_split\<lparr>timer_reads := 1, systime_curr_ms := 44, lastsystime_ticks := 44\<rparr>)
            = Some u'
          \<and> systime_curr_ms u' = 44 \<and> lastsystime_ticks u' = 44
          \<and> map_option fst (systime_ms True u') = Some 44)"
proof -
  have h2: "timer_steady 44 wrapped_split"
    by (simp add: timer_steady_def wrapped_split_def steady_def)
  note h3 = wrapped_split_ms
  from seconds_set_leaves_ticks_and_ms[OF h2 h3, where T = 7 and adj = 0 and s = scenario_c
      and t = Null and v = wrapped_split]
  obtain u' where
    "systime_sec_set True 7
       (wrapped_split\<lparr>timer_reads := 1, systime_curr_ms := 44, lastsystime_ticks := 44\<rparr>) = Some u'"
    "systime_curr_ms u'
       = systime_curr_ms (wrapped_split\<lparr>timer_reads := 1, systime_curr_ms := 44, lastsystime_ticks := 44\<rparr>)"
    "lastsystime_ticks u'
       = lastsystime_ticks (wrapped_split\<lparr>timer_reads := 1, systime_curr_ms := 44, lastsystime_ticks := 44\<rparr>)"
    "map_option fst (systime_ms True u') = Some 44"
    by blast
  then have "systime_sec_set True 7
              (wrapped_split\<lparr>timer_reads := 1, systime_curr_ms := 44, lastsystime_ticks := 44\<rparr>)
            = Some u'
          \<and> systime_curr_ms u' = 44 \<and> lastsystime_ticks u' = 44
          \<and> map_option fst (systime_ms True u') = Some 44"
    by simp
  with h2 h3 show ?thesis by blast
qed

section \<open>Termination of the catch-up loops\<close>

lemma catch_up_stuck:
  assumes "catch_up now chunk inc aligned cnt = Some y"
  shows "chunk = 0 \<longrightarrow> now = aligned"
  using assms
  by (induction rule: catch_up.raw_induct[rotated 1, consumes 1])
    (auto split: if_splits simp: word_greater_zero_iff)

lemma catch_up_None: "now \<noteq> aligned \<Longrightarrow> catch_up now 0 inc aligned cnt = None"
  using catch_up_stuck[of now 0 inc aligned cnt] by (cases "catch_up now 0 inc aligned cnt") auto

lemma stuck_c_init:
  "systime_init False (samples [0, 5]) 32 1 1073741824 startup = Some stuck_c"
  by (simp add: systime_init_def startup_def stuck_c_def samples_def systicks_def
      call_systickshw_def Let_def)

lemma stuck_c_forever: "systime3 False Null stuck_c = None"
proof -
  have "catch_up 5 0 100 0 0 = None" by (rule catch_up_None) simp
  then show ?thesis
    by (simp add: systime3_def stuck_c_def call_systickshw_def samples_def accumulate_loop_def)
qed

lemma systime_ms_returns:
  assumes "ticks50ms u \<noteq> 0" and "ticks1ms_m u \<noteq> 0"
  shows "\<exists>m u1. systime_ms False u = Some (m, u1)"
proof -
  obtain n s1 where t: "systime_tick u = (n, s1)" by (cases "systime_tick u")
  note f = systime_tick_frame[OF t]
  from assms f have c: "ticks50ms s1 \<noteq> 0" "ticks1ms_m s1 \<noteq> 0" by simp_all
  obtain l1 m1 where 1: "catch_up n (ticks50ms s1) 50 (lastsystime_ticks s1) (systime_curr_ms s1) = Some (l1, m1)"
    using catch_up_Some[OF c(1)] by blast
  obtain l2 m2 where 2: "catch_up n (ticks1ms_m s1) 1 l1 m1 = Some (l2, m2)"
    using catch_up_Some[OF c(2)] by blast
  show ?thesis by (simp add: systime_ms_def t 1 2)
qed

lemma chunks_nonzero:
  fixes t :: unsigned
  assumes "t \<noteq> 0" and "100 * unat t < 2 ^ 32"
  shows "10 * t \<noteq> 0" and "50 * t \<noteq> 0" and "100 * t \<noteq> 0"
proof -
  have p: "0 < unat t" using assms(1) by (simp add: unat_gt_0)
  have "unat (10 * t) = 10 * unat t" "unat (50 * t) = 50 * unat t" "unat (100 * t) = 100 * unat t"
    using assms(2) by (simp_all add: unat_word_ariths)
  with p have "unat (10 * t) \<noteq> 0" "unat (50 * t) \<noteq> 0" "unat (100 * t) \<noteq> 0" by simp_all
  then show "10 * t \<noteq> 0" and "50 * t \<noteq> 0" and "100 * t \<noteq> 0"
    by (auto simp: unat_eq_zero)
qed

section \<open>The null pointer\<close>

lemma residual_after:
  assumes "\<forall>i<k. catch_up_test now chunk ((catch_up_body chunk inc ^^ i) p)" and "j \<le> k"
  shows "unat (now - fst ((catch_up_body chunk inc ^^ j) p)) + j * unat chunk = unat (now - fst p)"
  using assms(2)
proof (induction j)
  case 0
  then show ?case by simp
next
  case (Suc j)
  then have ih: "unat (now - fst ((catch_up_body chunk inc ^^ j) p)) + j * unat chunk = unat (now - fst p)"
    by simp
  from Suc.prems assms(1) have "catch_up_test now chunk ((catch_up_body chunk inc ^^ j) p)"
    by simp
  then have t: "chunk < now - fst ((catch_up_body chunk inc ^^ j) p)"
    by (simp add: catch_up_test_def)
  then have lt: "unat chunk < unat (now - fst ((catch_up_body chunk inc ^^ j) p))"
    by (simp add: word_less_nat_alt)
  have "unat (now - fst ((catch_up_body chunk inc ^^ Suc j) p))
          = unat (now - fst ((catch_up_body chunk inc ^^ j) p)) - unat chunk"
    using residual_step[OF t] by (simp add: catch_up_body_def)
  with ih lt show ?case by simp
qed

lemma catch_up_closed:
  assumes "chunk \<noteq> 0"
  shows "\<exists>k. catch_up now chunk inc aligned cnt
                = Some (aligned + of_nat k * chunk, cnt + of_nat k * inc)
            \<and> unat (now - (aligned + of_nat k * chunk)) + k * unat chunk = unat (now - aligned)
            \<and> now - (aligned + of_nat k * chunk) \<le> chunk"
proof -
  from catch_up_returns[OF assms, of now aligned inc cnt] obtain k where
    r: "catch_up now chunk inc aligned cnt = Some ((catch_up_body chunk inc ^^ k) (aligned, cnt))"
    and e: "\<not> catch_up_test now chunk ((catch_up_body chunk inc ^^ k) (aligned, cnt))"
    and a: "\<forall>i<k. catch_up_test now chunk ((catch_up_body chunk inc ^^ i) (aligned, cnt))"
    by blast
  note c = catch_up_body_funpow[where chunk = chunk and inc = inc and k = k and a = aligned and c = cnt]
  from residual_after[OF a order_refl]
  have "unat (now - (aligned + of_nat k * chunk)) + k * unat chunk = unat (now - aligned)"
    by (simp add: c)
  moreover from e have "now - (aligned + of_nat k * chunk) \<le> chunk"
    by (simp add: c catch_up_test_def not_less)
  ultimately show ?thesis using r c by auto
qed

lemma accumulate_loop_closed:
  assumes "ticks100ms s \<noteq> 0" and "ticks10ms s \<noteq> 0" and "ticks1ms s \<noteq> 0"
  shows "\<exists>k1 k2 k3 k4 s'. accumulate_loop now s = Some s'
           \<and> s' = s\<lparr>last_systime_ticks := last_systime_ticks s + of_nat k1 * ticks100ms s
                                             + of_nat k2 * ticks10ms s + of_nat k3 * ticks1ms s,
                     milisec := milisec s + of_nat k1 * 100 + of_nat k2 * 10 + of_nat k3,
                     last_ms := last_ms s + of_nat k4 * 1000,
                     sec := sec s + of_nat k4\<rparr>
           \<and> k1 * unat (ticks100ms s) + k2 * unat (ticks10ms s) + k3 * unat (ticks1ms s)
               + unat (now - last_systime_ticks s') = unat (now - last_systime_ticks s)
           \<and> now - last_systime_ticks s' \<le> ticks1ms s
           \<and> milisec s' - last_ms s' \<le> 1000"
proof -
  from catch_up_closed[OF assms(1), where now = now and aligned = "last_systime_ticks s" and inc = 100 and cnt = "milisec s"]
  obtain k1 where 1: "catch_up now (ticks100ms s) 100 (last_systime_ticks s) (milisec s)
        = Some (last_systime_ticks s + of_nat k1 * ticks100ms s, milisec s + of_nat k1 * 100)"
    and r1: "unat (now - (last_systime_ticks s + of_nat k1 * ticks100ms s)) + k1 * unat (ticks100ms s)
               = unat (now - last_systime_ticks s)"
    by blast
  define l1 where "l1 = last_systime_ticks s + of_nat k1 * ticks100ms s"
  define m1 where "m1 = milisec s + of_nat k1 * 100"
  from catch_up_closed[OF assms(2), where now = now and aligned = l1 and inc = 10 and cnt = m1]
  obtain k2 where 2: "catch_up now (ticks10ms s) 10 l1 m1
        = Some (l1 + of_nat k2 * ticks10ms s, m1 + of_nat k2 * 10)"
    and r2: "unat (now - (l1 + of_nat k2 * ticks10ms s)) + k2 * unat (ticks10ms s) = unat (now - l1)"
    by blast
  define l2 where "l2 = l1 + of_nat k2 * ticks10ms s"
  define m2 where "m2 = m1 + of_nat k2 * 10"
  from catch_up_closed[OF assms(3), where now = now and aligned = l2 and inc = 1 and cnt = m2]
  obtain k3 where 3: "catch_up now (ticks1ms s) 1 l2 m2
        = Some (l2 + of_nat k3 * ticks1ms s, m2 + of_nat k3 * 1)"
    and r3: "unat (now - (l2 + of_nat k3 * ticks1ms s)) + k3 * unat (ticks1ms s) = unat (now - l2)"
    and e3: "now - (l2 + of_nat k3 * ticks1ms s) \<le> ticks1ms s"
    by blast
  define l3 where "l3 = l2 + of_nat k3 * ticks1ms s"
  define m3 where "m3 = m2 + of_nat k3"
  from catch_up_closed[where chunk = 1000 and now = m3 and aligned = "last_ms s" and inc = 1 and cnt = "sec s"]
  obtain k4 where 4: "catch_up m3 1000 1 (last_ms s) (sec s)
        = Some (last_ms s + of_nat k4 * 1000, sec s + of_nat k4 * 1)"
    and e4: "m3 - (last_ms s + of_nat k4 * 1000) \<le> 1000"
    by auto
  have a: "accumulate_loop now s
             = Some (s\<lparr>last_systime_ticks := l3, milisec := m3,
                       last_ms := last_ms s + of_nat k4 * 1000, sec := sec s + of_nat k4\<rparr>)"
    using 1 2 3 4 by (simp add: accumulate_loop_def l1_def m1_def l2_def m2_def l3_def m3_def)
  have r: "k1 * unat (ticks100ms s) + k2 * unat (ticks10ms s) + k3 * unat (ticks1ms s)
               + unat (now - l3) = unat (now - last_systime_ticks s)"
    using r1 r2 r3 by (simp add: l1_def l2_def l3_def)
  have l: "l3 = last_systime_ticks s + of_nat k1 * ticks100ms s
                 + of_nat k2 * ticks10ms s + of_nat k3 * ticks1ms s"
    by (simp add: l1_def l2_def l3_def)
  have m: "m3 = milisec s + of_nat k1 * 100 + of_nat k2 * 10 + of_nat k3"
    by (simp add: m1_def m2_def m3_def)
  show ?thesis
    apply (rule exI[of _ k1], rule exI[of _ k2], rule exI[of _ k3], rule exI[of _ k4])
    apply (rule exI[of _ "s\<lparr>last_systime_ticks := l3, milisec := m3,
                       last_ms := last_ms s + of_nat k4 * 1000, sec := sec s + of_nat k4\<rparr>"])
    using a r e3 e4 l3_def by (simp add: l m)
qed


lemma later_c_init:
  "systime_init False (samples [0, 2500]) 16 1 1000 startup = Some later_c"
  by (simp add: systime_init_def startup_def later_c_def samples_def systicks_def hw_mask_eq
      call_systickshw_def Let_def)

lemma later_c_loop:
  "systime3 False Null later_c
     = Some (2, None, later_c\<lparr>hw_reads := 2, ticks := 2500, last_timer_ticks := 2500,
                              last_systime_ticks := 2000, milisec := 2\<rparr>)"
  by (simp add: later_c_def samples_def systicks_def call_systickshw_def systime3_def
      accumulate_loop_def catch_up.simps Let_def)

text \<open>
  Claim C10. Let \<open>now\<close> be the wide tick count of the timer sample a \<^verbatim>\<open>systime3\<close> call
  takes and \<open>s1\<close> the state after that sample. Where the call returns (the chunk
  constants of the loops are not zero, or \<^verbatim>\<open>ticks1ms\<close> is not zero in the build that
  divides), a call with the null pointer stores nothing and still samples the timer
  and advances the accumulators exactly as a call with a valid pointer does: both end
  in the same state \<open>s'\<close>, which is \<open>s1\<close> with the millisecond and second stages
  caught up to \<open>now\<close>, and both return the millisecond counter of \<open>s'\<close>. In the build
  that divides, \<open>s'\<close> is given in closed form; in the build that loops, it is \<open>s1\<close>
  advanced by whole chunks, in lock-step, until at most one \<^verbatim>\<open>ticks1ms\<close> and 1000 ms are
  left. \<^verbatim>\<open>systimelast3\<close> with the null pointer stores nothing, changes nothing and returns
  the millisecond counter. The inline functions \<^verbatim>\<open>systime_ms\<close> and \<^verbatim>\<open>systimelast_ms\<close> of
  systime.h return exactly these values.
\<close>

theorem null_pointer_safe:
  assumes "if d then ticks1ms s \<noteq> 0
           else ticks100ms s \<noteq> 0 \<and> ticks10ms s \<noteq> 0 \<and> ticks1ms s \<noteq> 0"
    and "now = (if use_hw_systicks s then systickshw s (hw_reads s)
                else ticks s + ((systickshw s (hw_reads s) - last_timer_ticks s) AND mask_c s)
                               * tickmult s)"
    and "s1 = (if use_hw_systicks s then s\<lparr>hw_reads := Suc (hw_reads s)\<rparr>
               else s\<lparr>hw_reads := Suc (hw_reads s), ticks := now,
                      last_timer_ticks := systickshw s (hw_reads s)\<rparr>)"
  shows "(\<exists>s'. systime3 d Null s = Some (milisec s', None, s')
            \<and> systime3 d NonNull s
                = Some (milisec s',
                        Some \<lparr>t_sec = sec s' + sec_offset s', t_msec = milisec s', t_ticks = now\<rparr>,
                        s')
            \<and> systime_ms_inline d s = Some (milisec s', s')
            \<and> (if d then accumulate_div now s1 else accumulate_loop now s1) = Some s'
            \<and> (if d
                then s' = s1\<lparr>milisec := milisec s + (now - last_systime_ticks s) div ticks1ms s,
                              last_systime_ticks := last_systime_ticks s
                                 + (now - last_systime_ticks s) div ticks1ms s * ticks1ms s,
                              sec := sec s + (milisec s + (now - last_systime_ticks s) div ticks1ms s
                                              - last_ms s) div 1000,
                              last_ms := last_ms s
                                 + (milisec s + (now - last_systime_ticks s) div ticks1ms s
                                    - last_ms s) div 1000 * 1000\<rparr>
                   \<and> now - last_systime_ticks s' < ticks1ms s
                   \<and> milisec s' - last_ms s' < 1000
                else (\<exists>k1 k2 k3 k4.
                       s' = s1\<lparr>last_systime_ticks := last_systime_ticks s + of_nat k1 * ticks100ms s
                                             + of_nat k2 * ticks10ms s + of_nat k3 * ticks1ms s,
                                milisec := milisec s + of_nat k1 * 100 + of_nat k2 * 10 + of_nat k3,
                                last_ms := last_ms s + of_nat k4 * 1000,
                                sec := sec s + of_nat k4\<rparr>
                       \<and> k1 * unat (ticks100ms s) + k2 * unat (ticks10ms s) + k3 * unat (ticks1ms s)
                           + unat (now - last_systime_ticks s') = unat (now - last_systime_ticks s)
                       \<and> now - last_systime_ticks s' \<le> ticks1ms s
                       \<and> milisec s' - last_ms s' \<le> 1000)))
         \<and> systimelast3 Null s = (milisec s, None, s)
         \<and> systimelast_ms s = (milisec s, s)"
proof -
  have q: "(if use_hw_systicks s then call_systickshw s else systicks s) = (now, s1)"
    using assms(2,3) by (simp add: systicks_def call_systickshw_def Let_def)
  have f: "ticks1ms s1 = ticks1ms s" "ticks10ms s1 = ticks10ms s" "ticks100ms s1 = ticks100ms s"
    "last_systime_ticks s1 = last_systime_ticks s" "milisec s1 = milisec s"
    "last_ms s1 = last_ms s" "sec s1 = sec s"
    using assms(3) by (simp_all split: if_splits)
  have l: "systimelast3 Null s = (milisec s, None, s) \<and> systimelast_ms s = (milisec s, s)"
    by (simp add: systimelast3_def systimelast_ms_def)
  have x: "systime3 d Null s = Some (milisec s', None, s')
            \<and> systime3 d NonNull s
                = Some (milisec s',
                        Some \<lparr>t_sec = sec s' + sec_offset s', t_msec = milisec s', t_ticks = now\<rparr>,
                        s')
            \<and> systime_ms_inline d s = Some (milisec s', s')"
    if "(if d then accumulate_div now s1 else accumulate_loop now s1) = Some s'" for s'
    using that by (simp add: systime3_def systime_ms_inline_def q)
  show ?thesis
  proof (cases d)
    case True
    with assms(1) have nz: "ticks1ms s \<noteq> 0" by simp
    define s' where "s' = s1\<lparr>milisec := milisec s + (now - last_systime_ticks s) div ticks1ms s,
                              last_systime_ticks := last_systime_ticks s
                                 + (now - last_systime_ticks s) div ticks1ms s * ticks1ms s,
                              sec := sec s + (milisec s + (now - last_systime_ticks s) div ticks1ms s
                                              - last_ms s) div 1000,
                              last_ms := last_ms s
                                 + (milisec s + (now - last_systime_ticks s) div ticks1ms s
                                    - last_ms s) div 1000 * 1000\<rparr>"
    have a: "accumulate_div now s1 = Some s'"
      using nz f by (simp add: accumulate_div_def Let_def s'_def)
    have "now - last_systime_ticks s'
            = (now - last_systime_ticks s) - (now - last_systime_ticks s) div ticks1ms s * ticks1ms s"
      by (simp add: s'_def)
    also have "\<dots> < ticks1ms s" by (rule word_div_residual[OF nz])
    finally have r1: "now - last_systime_ticks s' < ticks1ms s" .
    have "milisec s' - last_ms s'
            = (milisec s' - last_ms s) - (milisec s' - last_ms s) div 1000 * 1000"
      by (simp add: s'_def)
    also have "\<dots> < 1000" by (rule word_div_residual) simp
    finally have r2: "milisec s' - last_ms s' < 1000" .
    from x[of s'] a True r1 r2 l show ?thesis
      by (intro conjI exI[of _ s']) (simp_all add: s'_def)
  next
    case False
    with assms(1) f have nz: "ticks100ms s1 \<noteq> 0" "ticks10ms s1 \<noteq> 0" "ticks1ms s1 \<noteq> 0"
      by simp_all
    from accumulate_loop_closed[OF nz, of now] obtain k1 k2 k3 k4 s' where
      a: "accumulate_loop now s1 = Some s'"
      and e: "s' = s1\<lparr>last_systime_ticks := last_systime_ticks s1 + of_nat k1 * ticks100ms s1
                                             + of_nat k2 * ticks10ms s1 + of_nat k3 * ticks1ms s1,
                     milisec := milisec s1 + of_nat k1 * 100 + of_nat k2 * 10 + of_nat k3,
                     last_ms := last_ms s1 + of_nat k4 * 1000,
                     sec := sec s1 + of_nat k4\<rparr>"
      and r: "k1 * unat (ticks100ms s1) + k2 * unat (ticks10ms s1) + k3 * unat (ticks1ms s1)
               + unat (now - last_systime_ticks s') = unat (now - last_systime_ticks s1)"
      and b: "now - last_systime_ticks s' \<le> ticks1ms s1" "milisec s' - last_ms s' \<le> 1000"
      by blast
    have "\<exists>k1 k2 k3 k4.
                       s' = s1\<lparr>last_systime_ticks := last_systime_ticks s + of_nat k1 * ticks100ms s
                                             + of_nat k2 * ticks10ms s + of_nat k3 * ticks1ms s,
                                milisec := milisec s + of_nat k1 * 100 + of_nat k2 * 10 + of_nat k3,
                                last_ms := last_ms s + of_nat k4 * 1000,
                                sec := sec s + of_nat k4\<rparr>
                       \<and> k1 * unat (ticks100ms s) + k2 * unat (ticks10ms s) + k3 * unat (ticks1ms s)
                           + unat (now - last_systime_ticks s') = unat (now - last_systime_ticks s)
                       \<and> now - last_systime_ticks s' \<le> ticks1ms s
                       \<and> milisec s' - last_ms s' \<le> 1000"
      using e r b unfolding f by blast
    with x[of s'] a False l show ?thesis
      by (intro conjI exI[of _ s']) simp_all
  qed
qed


theorem null_pointer_safe_witness:
  "(if True then ticks1ms later_c \<noteq> 0
    else ticks100ms later_c \<noteq> 0 \<and> ticks10ms later_c \<noteq> 0 \<and> ticks1ms later_c \<noteq> 0)
   \<and> (if False then ticks1ms later_c \<noteq> 0
    else ticks100ms later_c \<noteq> 0 \<and> ticks10ms later_c \<noteq> 0 \<and> ticks1ms later_c \<noteq> 0)
   \<and> (2500 :: unsigned)
       = (if use_hw_systicks later_c then systickshw later_c (hw_reads later_c)
          else ticks later_c
               + ((systickshw later_c (hw_reads later_c) - last_timer_ticks later_c) AND mask_c later_c)
                 * tickmult later_c)
   \<and> later_c\<lparr>hw_reads := 2, ticks := 2500, last_timer_ticks := 2500\<rparr>
       = (if use_hw_systicks later_c then later_c\<lparr>hw_reads := Suc (hw_reads later_c)\<rparr>
          else later_c\<lparr>hw_reads := Suc (hw_reads later_c), ticks := 2500,
                        last_timer_ticks := systickshw later_c (hw_reads later_c)\<rparr>)
   \<and> systime3 True Null later_c
       = Some (2, None, later_c\<lparr>hw_reads := 2, ticks := 2500, last_timer_ticks := 2500,
                                last_systime_ticks := 2000, milisec := 2\<rparr>)
   \<and> systime3 False Null later_c
       = Some (2, None, later_c\<lparr>hw_reads := 2, ticks := 2500, last_timer_ticks := 2500,
                                last_systime_ticks := 2000, milisec := 2\<rparr>)
   \<and> (\<exists>s'. systime3 False Null later_c = Some (milisec s', None, s')
          \<and> accumulate_loop 2500 (later_c\<lparr>hw_reads := 2, ticks := 2500, last_timer_ticks := 2500\<rparr>)
              = Some s'
          \<and> 2500 - last_systime_ticks s' \<le> ticks1ms later_c)
   \<and> systime_init False (samples [0, 2500]) 16 1 1000 startup = Some later_c"
proof -
  have h1: "if True then ticks1ms later_c \<noteq> 0
    else ticks100ms later_c \<noteq> 0 \<and> ticks10ms later_c \<noteq> 0 \<and> ticks1ms later_c \<noteq> 0"
    and h2: "if False then ticks1ms later_c \<noteq> 0
    else ticks100ms later_c \<noteq> 0 \<and> ticks10ms later_c \<noteq> 0 \<and> ticks1ms later_c \<noteq> 0"
    by (simp_all add: later_c_def)
  have n: "(2500 :: unsigned)
       = (if use_hw_systicks later_c then systickshw later_c (hw_reads later_c)
          else ticks later_c
               + ((systickshw later_c (hw_reads later_c) - last_timer_ticks later_c) AND mask_c later_c)
                 * tickmult later_c)"
    by (simp add: later_c_def samples_def)
  have e: "later_c\<lparr>hw_reads := 2, ticks := 2500, last_timer_ticks := 2500\<rparr>
       = (if use_hw_systicks later_c then later_c\<lparr>hw_reads := Suc (hw_reads later_c)\<rparr>
          else later_c\<lparr>hw_reads := Suc (hw_reads later_c), ticks := 2500,
                        last_timer_ticks := systickshw later_c (hw_reads later_c)\<rparr>)"
    by (simp add: later_c_def samples_def)
  from null_pointer_safe[OF h1 n e]
  have a: "systime3 True Null later_c
       = Some (2, None, later_c\<lparr>hw_reads := 2, ticks := 2500, last_timer_ticks := 2500,
                                last_systime_ticks := 2000, milisec := 2\<rparr>)"
    by (auto simp: later_c_def)
  from null_pointer_safe[OF h2 n e]
  have b: "\<exists>s'. systime3 False Null later_c = Some (milisec s', None, s')
          \<and> accumulate_loop 2500 (later_c\<lparr>hw_reads := 2, ticks := 2500, last_timer_ticks := 2500\<rparr>)
              = Some s'
          \<and> 2500 - last_systime_ticks s' \<le> ticks1ms later_c"
    by (simp only: if_False) blast
  from h1 h2 n e a b later_c_loop later_c_init show ?thesis by (intro conjI)
qed

section \<open>The loop of systime_sec on a moving timer\<close>

lemma racing_split_init:
  "Option.bind (systime_tick_init racing_timer 32 1 startup_split) (systime_time_init False 1)
     = Some racing_split"
  by (simp add: systime_tick_init_def startup_split_def racing_timer_def systime_tick_def
      call_timer_def systime_time_init_def systime_ms_def catch_up.simps racing_split_def Let_def)

lemma catch_up_second:
  "catch_up (a + 1001) 50 50 a c = Some (a + 1000, c + 1000)"
  by (simp add: catch_up.simps)

lemma racing_ms:
  assumes "racing s"
  shows "systime_ms False s
           = Some (systime_curr_ms s + 1000,
                   s\<lparr>timer_reads := Suc (timer_reads s),
                     lastsystime_ticks := lastsystime_ticks s + 1000,
                     systime_curr_ms := systime_curr_ms s + 1000\<rparr>)"
  using assms
  by (simp add: racing_def systime_ms_def systime_tick_def call_timer_def catch_up_second
      catch_up_done Let_def)

lemma racing_forever:
  assumes "systime_sec_loop s = Some y"
  shows "\<not> racing s"
  using assms
proof (induction rule: systime_sec_loop.raw_induct[rotated 1, consumes 1])
  case (1 loop s y)
  show ?case
  proof
    assume r: "racing s"
    define s2 where "s2 = s\<lparr>timer_reads := Suc (timer_reads s),
                     lastsystime_ticks := lastsystime_ticks s + 1000,
                     systime_curr_ms := systime_curr_ms s + 1000,
                     last_ms_s := last_ms_s s + 1000,
                     systime_curr_sec := systime_curr_sec s + 1\<rparr>"
    have t: "(1000 :: unsigned) \<le> systime_curr_ms s + 1000 - last_ms_s s"
      using r by (simp add: racing_def)
    from 1(2) have "loop s2 = Some y"
      using t by (simp add: racing_ms[OF r] s2_def)
    moreover have "racing s2"
      using r by (simp add: racing_def s2_def racing_timer_def algebra_simps)
    ultimately show False using 1(1) by blast
  qed
qed

lemma racing_split_forever: "systime_sec False racing_split = None"
proof -
  have "racing racing_split"
    by (simp add: racing_def racing_split_def racing_timer_def)
  with racing_forever[of racing_split] have "systime_sec_loop racing_split = None"
    by (cases "systime_sec_loop racing_split") auto
  then show ?thesis by (simp add: systime_sec_def)
qed

lemma tick_advance_update [simp]:
  "tick_advance (s\<lparr>lastsystime_ticks := a\<rparr>) = tick_advance s"
  "tick_advance (s\<lparr>systime_curr_ms := b\<rparr>) = tick_advance s"
  "tick_advance (s\<lparr>last_ms_s := c\<rparr>) = tick_advance s"
  "tick_advance (s\<lparr>systime_curr_sec := e\<rparr>) = tick_advance s"
  by (simp_all add: tick_advance_def fun_eq_iff split: tick_fn.splits)

lemma caught_up_update [simp]:
  "caught_up (s\<lparr>last_ms_s := c\<rparr>) = caught_up s"
  "caught_up (s\<lparr>systime_curr_sec := e\<rparr>) = caught_up s"
  by (simp_all add: caught_up_def wide_last_def split: tick_fn.splits)

lemma tick_read:
  assumes "systime_tick s = (n, s')"
  shows "tick_advance s' = tick_advance s" and "wide_last s' = n"
    and "case systime_tick_current s' of Timer f \<Rightarrow> True
         | Internal \<Rightarrow> last_timer_ticks_t s' = systickshw_t s' (timer_reads s' - 1)"
  using assms
  by (auto simp: systime_tick_def systime_tick_internal_def call_timer_def Let_def
      tick_advance_def wide_last_def fun_eq_iff split: tick_fn.splits)

lemma tick_next:
  assumes "0 < timer_reads s"
    and "case systime_tick_current s of Timer f \<Rightarrow> True
         | Internal \<Rightarrow> last_timer_ticks_t s = systickshw_t s (timer_reads s - 1)"
  shows "fst (systime_tick s) = wide_last s + tick_advance s (timer_reads s - 1)"
  using assms
  by (auto simp: systime_tick_def systime_tick_internal_def call_timer_def Let_def
      tick_advance_def wide_last_def split: tick_fn.splits)

lemma ms_leaves_caught_up:
  assumes "systime_ms False s = Some (m, s1)"
  shows "caught_up s1"
proof -
  obtain n sa where t: "systime_tick s = (n, sa)" by (cases "systime_tick s")
  note f = systime_tick_frame[OF t] and g = tick_read[OF t]
  from assms t obtain l1 m1 l2 m2 where
    c2: "catch_up n (ticks1ms_m sa) 1 l1 m1 = Some (l2, m2)"
    and s1: "s1 = sa\<lparr>lastsystime_ticks := l2, systime_curr_ms := m2\<rparr>"
    by (auto simp: systime_ms_def Let_def split: bind_splits)
  from catch_up_exit[OF c2] have "n - l2 \<le> ticks1ms_m sa" by simp
  with f(11) g(2,3) show ?thesis
    by (auto simp: caught_up_def wide_last_def s1 split: tick_fn.splits)
qed

lemma unat_add_le:
  fixes x y :: unsigned
  shows "unat (x + y) \<le> unat x + unat y"
  by (simp add: unat_word_ariths)

lemma sec_residual_shrinks:
  fixes r d :: unsigned
  assumes "1000 \<le> r" and "unat d \<le> 999"
  shows "unat (r - 1000 + d) < unat r"
proof -
  have a: "unat (r - 1000) = unat r - 1000" using sec_chunk_step(1)[OF assms(1)] .
  have b: "1000 \<le> unat r" using assms(1) by (simp add: word_le_nat_alt)
  have lt: "unat r < 2 ^ 32" using unsigned_less[of r] by simp
  have "unat (r - 1000 + d) = (unat r - 1000 + unat d) mod 2 ^ 32"
    by (simp add: unat_word_ariths a)
  also have "\<dots> < unat r"
  proof (cases "unat r - 1000 + unat d < 2 ^ 32")
    case True
    then show ?thesis using assms(2) b by simp
  next
    case False
    then have "(unat r - 1000 + unat d) mod 2 ^ 32 = unat r - 1000 + unat d - 2 ^ 32"
      using lt assms(2) by (simp add: mod_if)
    then show ?thesis using lt assms(2) b by simp
  qed
  finally show ?thesis .
qed

lemma ms_step_slow:
  assumes "caught_up s" and "ticks1ms_m s \<noteq> 0" and "ticks50ms s = 50 * ticks1ms_m s"
    and "50 * unat (ticks1ms_m s) < 2 ^ 32"
    and "unat (tick_advance s (timer_reads s - 1)) < 999 * unat (ticks1ms_m s)"
  shows "\<exists>m' s'. systime_ms False s = Some (m', s') \<and> unat (m' - systime_curr_ms s) \<le> 999"
proof -
  obtain n sa where t: "systime_tick s = (n, sa)" by (cases "systime_tick s")
  note f = systime_tick_frame[OF t]
  define t1 where "t1 = ticks1ms_m s"
  define L where "L = lastsystime_ticks s"
  define M where "M = systime_curr_ms s"
  have tpos: "0 < unat t1" using assms(2) by (simp add: t1_def unat_gt_0)
  have u50: "unat (50 * t1) = 50 * unat t1"
    using assms(4) by (simp add: unat_word_ariths t1_def)
  then have nz50: "50 * t1 \<noteq> 0" using tpos by (auto simp: unat_eq_zero)
  have nz1: "t1 \<noteq> 0" using assms(2) by (simp add: t1_def)
  from assms(1) have n: "n = wide_last s + tick_advance s (timer_reads s - 1)"
    using tick_next[of s] t by (simp add: caught_up_def)
  have e: "n - L = (wide_last s - L) + tick_advance s (timer_reads s - 1)"
    by (simp add: n)
  have "unat (n - L) \<le> unat (wide_last s - L) + unat (tick_advance s (timer_reads s - 1))"
    unfolding e by (rule unat_add_le)
  moreover have "unat (wide_last s - L) \<le> unat t1"
    using assms(1) by (simp add: caught_up_def L_def t1_def word_le_nat_alt)
  ultimately have R0: "unat (n - L) < 1000 * unat t1"
    using assms(5) by (simp add: t1_def)
  from catch_up_closed[OF nz50, where now = n and aligned = L and inc = 50 and cnt = M]
  obtain k50 where c1: "catch_up n (50 * t1) 50 L M = Some (L + of_nat k50 * (50 * t1), M + of_nat k50 * 50)"
    and r1: "unat (n - (L + of_nat k50 * (50 * t1))) + k50 * unat (50 * t1) = unat (n - L)"
    by blast
  define l1 where "l1 = L + of_nat k50 * (50 * t1)"
  from catch_up_closed[OF nz1, where now = n and aligned = l1 and inc = 1 and cnt = "M + of_nat k50 * 50"]
  obtain k1 where c2: "catch_up n t1 1 l1 (M + of_nat k50 * 50)
                         = Some (l1 + of_nat k1 * t1, M + of_nat k50 * 50 + of_nat k1 * 1)"
    and r2: "unat (n - (l1 + of_nat k1 * t1)) + k1 * unat t1 = unat (n - l1)"
    by blast
  have "k50 * (50 * unat t1) + k1 * unat t1 \<le> unat (n - L)"
    using r1 r2 by (simp add: l1_def u50)
  then have "(50 * k50 + k1) * unat t1 < 1000 * unat t1"
    using R0 by (simp add: algebra_simps)
  then have k: "50 * k50 + k1 < 1000" by simp
  define m' where "m' = M + of_nat k50 * 50 + of_nat k1"
  have q: "systime_ms False s = Some (m', sa\<lparr>lastsystime_ticks := l1 + of_nat k1 * t1,
                                              systime_curr_ms := m'\<rparr>)"
    using c1 c2 f assms(3)
    by (simp add: systime_ms_def t l1_def m'_def t1_def L_def M_def)
  have e': "m' - M = of_nat (50 * k50 + k1)" by (simp add: m'_def)
  have "unat (of_nat (50 * k50 + k1) :: unsigned) = (50 * k50 + k1) mod 2 ^ LENGTH(32)"
    by (rule unat_of_nat)
  also have "\<dots> = 50 * k50 + k1" using k by simp
  finally have "unat (m' - M) = 50 * k50 + k1" unfolding e' .
  with k q show ?thesis by (auto simp: M_def)
qed

lemma sec_loop_exit:
  assumes "systime_sec_loop s = Some y"
  shows "systime_curr_ms y - last_ms_s y < 1000"
  using assms
proof (induction rule: systime_sec_loop.raw_induct[rotated 1, consumes 1])
  case (1 loop s y)
  from 1(2) obtain m s1 where q: "systime_ms False s = Some (m, s1)"
    by (auto split: bind_splits)
  note f = systime_ms_frame(1)[OF q]
  from 1 q f show ?case
    by (auto simp: not_le split: if_splits)
qed

lemma sec_loop_slow:
  assumes "ticks1ms_m s \<noteq> 0" and "ticks50ms s = 50 * ticks1ms_m s"
    and "50 * unat (ticks1ms_m s) < 2 ^ 32"
    and "timer_slow s"
    and "systime_ms False s = Some (m, s1)"
  shows "\<exists>s'. systime_sec_loop s = Some s'
            \<and> timer_reads s' \<le> timer_reads s1 + unat (m - last_ms_s s)"
  using assms
proof (induction "unat (m - last_ms_s s)" arbitrary: s s1 m rule: less_induct)
  case less
  note f = systime_ms_frame[OF less.prems(5)]
  show ?case
  proof (cases "1000 \<le> m - last_ms_s s")
    case False
    with f show ?thesis
      by (subst systime_sec_loop.simps) (simp add: less.prems(5))
  next
    case True
    define s2 where "s2 = s1\<lparr>last_ms_s := last_ms_s s1 + 1000, systime_curr_sec := systime_curr_sec s1 + 1\<rparr>"
    have adv: "tick_advance s1 = tick_advance s"
      by (simp add: tick_advance_def fun_eq_iff f(6,7,8,9) split: tick_fn.splits)
    have cu: "caught_up s2"
      using ms_leaves_caught_up[OF less.prems(5)] by (simp add: s2_def)
    have cfg: "ticks1ms_m s2 \<noteq> 0" "ticks50ms s2 = 50 * ticks1ms_m s2"
      "50 * unat (ticks1ms_m s2) < 2 ^ 32"
      using less.prems(1-3) f by (simp_all add: s2_def)
    have slow: "timer_slow s2"
      using less.prems(4) f adv by (simp add: timer_slow_def s2_def)
    have "unat (tick_advance s2 (timer_reads s2 - 1)) < 999 * unat (ticks1ms_m s2)"
      using less.prems(4) f adv by (simp add: timer_slow_def s2_def)
    from ms_step_slow[OF cu cfg this] obtain m' s3 where
      q: "systime_ms False s2 = Some (m', s3)" and d: "unat (m' - systime_curr_ms s2) \<le> 999"
      by blast
    have cm: "systime_curr_ms s2 = m" using f(1) by (simp add: s2_def)
    have e: "m' - last_ms_s s2 = (m - last_ms_s s) - 1000 + (m' - m)"
      using f by (simp add: s2_def)
    have lt: "unat (m' - last_ms_s s2) < unat (m - last_ms_s s)"
      using sec_residual_shrinks[OF True, of "m' - m"] d by (simp add: e cm)
    from less.hyps[OF lt cfg slow q] obtain s' where
      r: "systime_sec_loop s2 = Some s'"
      and b: "timer_reads s' \<le> timer_reads s3 + unat (m' - last_ms_s s2)"
      by blast
    have "timer_reads s3 = Suc (timer_reads s1)"
      using systime_ms_frame(10)[OF q] by (simp add: s2_def)
    with b lt have "timer_reads s' \<le> timer_reads s1 + unat (m - last_ms_s s)" by simp
    moreover have "systime_sec_loop s = Some s'"
      using True f r by (subst systime_sec_loop.simps) (simp add: less.prems(5) s2_def)
    ultimately show ?thesis by blast
  qed
qed

section \<open>Which catch-up loops terminate\<close>

lemma racing_split_ms: "map_option fst (systime_ms False racing_split) = Some 2000"
proof -
  have "racing racing_split"
    by (simp add: racing_def racing_split_def racing_timer_def)
  from racing_ms[OF this] show ?thesis by (simp add: racing_split_def)
qed

lemma still_split_init:
  "Option.bind (systime_tick_init halting_timer 16 1 startup_split) (systime_time_init False 1)
     = Some still_split"
  by (simp add: systime_tick_init_def startup_split_def halting_timer_def systime_tick_def
      systime_tick_internal_def hw_mask_eq call_timer_def systime_time_init_def systime_ms_def
      catch_up.simps still_split_def Let_def)

lemma still_split_ms:
  "systime_ms False still_split
     = Some (2499, still_split\<lparr>timer_reads := 3, last_timer_ticks_t := 2500,
                               systime_curr_ticks := 2500, lastsystime_ticks := 2499,
                               systime_curr_ms := 2499\<rparr>)"
  by (simp add: still_split_def halting_timer_def systime_ms_def systime_tick_def
      systime_tick_internal_def call_timer_def catch_up.simps Let_def)

lemma still_split_steady: "timer_steady 2500 still_split"
  by (simp add: timer_steady_def still_split_def halting_timer_def)

lemma walking_split_init:
  "Option.bind (systime_tick_init walking_timer 32 1 startup_split) (systime_time_init False 1)
     = Some walking_split"
  by (simp add: systime_tick_init_def startup_split_def walking_timer_def systime_tick_def
      call_timer_def systime_time_init_def systime_ms_def catch_up.simps walking_split_def Let_def)

lemma walking_split_slow: "timer_slow walking_split"
  by (simp add: timer_slow_def tick_advance_def walking_split_def walking_timer_def)

lemma walking_split_ms:
  "systime_ms False walking_split
     = Some (1199, walking_split\<lparr>timer_reads := 3, lastsystime_ticks := 1199,
                                  systime_curr_ms := 1199\<rparr>)"
  by (simp add: walking_split_def walking_timer_def systime_ms_def systime_tick_def
      call_timer_def catch_up.simps Let_def)

lemma walking_split_ms2:
  "systime_ms False (walking_split\<lparr>timer_reads := 3, lastsystime_ticks := 1199,
                                   systime_curr_ms := 1199, last_ms_s := 1000,
                                   systime_curr_sec := 1\<rparr>)
     = Some (1799, walking_split\<lparr>timer_reads := 4, last_ms_s := 1000, systime_curr_sec := 1,
                                  lastsystime_ticks := 1799, systime_curr_ms := 1799\<rparr>)"
  by (simp add: walking_split_def walking_timer_def systime_ms_def systime_tick_def
      call_timer_def catch_up.simps Let_def)

lemma walking_split_loop:
  "systime_sec_loop walking_split
     = Some (walking_split\<lparr>timer_reads := 4, last_ms_s := 1000, systime_curr_sec := 1,
                           lastsystime_ticks := 1799, systime_curr_ms := 1799\<rparr>)"
proof -
  have "systime_sec_loop (walking_split\<lparr>timer_reads := 3, lastsystime_ticks := 1199,
                                   systime_curr_ms := 1199, last_ms_s := 1000,
                                   systime_curr_sec := 1\<rparr>)
     = Some (walking_split\<lparr>timer_reads := 4, last_ms_s := 1000, systime_curr_sec := 1,
                           lastsystime_ticks := 1799, systime_curr_ms := 1799\<rparr>)"
    by (subst systime_sec_loop.simps) (simp add: walking_split_ms2)
  then show ?thesis
    by (subst systime_sec_loop.simps) (simp add: walking_split_ms, simp add: walking_split_def)
qed

text \<open>
  Claim C7, as stated, fails, in two ways. With \<open>2 ^ 30\<close> ticks per millisecond, a value
  that is at least 1, \<^verbatim>\<open>systime_init\<close> computes \<^verbatim>\<open>ticks100ms = 100 * ticks_for_1ms\<close> as 0
  modulo \<open>2 ^ 32\<close>; the first loop of \<^verbatim>\<open>systime3\<close> then adds 0 to \<^verbatim>\<open>last_systime_ticks\<close> in
  every iteration, and once the timer has moved the call never returns. And the loop of
  \<^verbatim>\<open>systime_sec\<close> has no fixed current value: its test calls \<^verbatim>\<open>systime_ms()\<close>, which reads
  the timer again. With one tick per millisecond and a timer that is 1000 ticks further
  at every read, each test finds the residual at 1000 again, although each iteration
  takes 1000 off, and \<^verbatim>\<open>systime_sec\<close> never returns; the millisecond query itself does.
\<close>

theorem catch_up_runs_forever:
  "systime_init False (samples [0, 5]) 32 1 1073741824 startup = Some stuck_c
   \<and> 1 \<le> ticks1ms stuck_c \<and> ticks100ms stuck_c = 100 * ticks1ms stuck_c
   \<and> ticks100ms stuck_c = 0
   \<and> systime3 False Null stuck_c = None
   \<and> Option.bind (systime_tick_init racing_timer 32 1 startup_split) (systime_time_init False 1)
       = Some racing_split
   \<and> ticks1ms_m racing_split = 1 \<and> ticks50ms racing_split = 50
   \<and> racing_timer 3 - racing_timer 2 = 1000
   \<and> map_option fst (systime_ms False racing_split) = Some 2000
   \<and> systime_sec False racing_split = None"
  by (simp add: stuck_c_init stuck_c_forever racing_split_init racing_split_ms
      racing_split_forever)
    (simp add: stuck_c_def racing_split_def racing_timer_def)

text \<open>
  Claim C7, amended. Let \<open>t \<ge> 1\<close> be the ticks-per-millisecond constant, and let its
  multiples used as chunk constants, \<open>10 * t\<close>, \<open>50 * t\<close> and \<open>100 * t\<close>, be non-zero modulo
  \<open>2 ^ 32\<close> (lemma \<open>chunks_nonzero\<close>: this holds whenever \<open>100 * t < 2 ^ 32\<close>). Then for every
  pair of current and last-aligned values each catch-up loop with a fixed current
  value terminates: with \<open>chunk\<close> any of \<open>t\<close>, \<open>10 * t\<close>, \<open>50 * t\<close>, \<open>100 * t\<close>, 1000, the loop
  runs \<open>k\<close> iterations with \<open>k \<le> residual div chunk\<close>, every iteration finds the residual
  above the chunk and lowers it by exactly the chunk, which is positive. So \<^verbatim>\<open>systime3\<close>
  and \<^verbatim>\<open>systime_ms\<close> return in the build that loops. The loop of \<^verbatim>\<open>systime_sec\<close> reads the
  timer anew in every test. It terminates from every state, within at most as many
  iterations as the residual counts milliseconds, and leaves less than 1000 ms
  uncounted, when \<open>50 * t < 2 ^ 32\<close> and the wide tick count grows by less than
  \<open>999 * t\<close> between consecutive reads of the timer. While the timer stands still it runs
  exactly \<open>residual div 1000\<close> iterations, one timer read each.
\<close>

theorem catch_up_loops_terminate:
  assumes "t \<noteq> 0" and "10 * t \<noteq> 0" and "50 * t \<noteq> 0" and "100 * t \<noteq> 0"
    and "chunk \<in> {t, 10 * t, 50 * t, 100 * t, 1000}"
    and "ticks1ms s = t" and "ticks10ms s = 10 * t" and "ticks100ms s = 100 * t"
    and "ticks1ms_m w = t" and "ticks50ms w = 50 * t"
    and "ticks1ms_m u \<noteq> 0" and "ticks50ms u = 50 * ticks1ms_m u"
    and "50 * unat (ticks1ms_m u) < 2 ^ 32" and "timer_slow u"
    and "ticks1ms_m v \<noteq> 0" and "ticks50ms v \<noteq> 0" and "timer_steady r v"
  shows "(\<exists>k. k \<le> unat (now - aligned) div unat chunk
            \<and> catch_up now chunk inc aligned cnt
                = Some ((catch_up_body chunk inc ^^ k) (aligned, cnt))
            \<and> \<not> catch_up_test now chunk ((catch_up_body chunk inc ^^ k) (aligned, cnt))
            \<and> (\<forall>i<k. catch_up_test now chunk ((catch_up_body chunk inc ^^ i) (aligned, cnt))
                    \<and> 0 < unat chunk
                    \<and> unat (now - fst ((catch_up_body chunk inc ^^ Suc i) (aligned, cnt)))
                        = unat (now - fst ((catch_up_body chunk inc ^^ i) (aligned, cnt))) - unat chunk))
       \<and> (\<exists>res x s'. systime3 False p s = Some (res, x, s'))
       \<and> (\<exists>m w1. systime_ms False w = Some (m, w1))
       \<and> (\<exists>m u1 u'. systime_ms False u = Some (m, u1)
            \<and> systime_sec_loop u = Some u'
            \<and> systime_sec False u = Some (systime_curr_sec u', u')
            \<and> timer_reads u' \<le> timer_reads u1 + unat (m - last_ms_s u)
            \<and> systime_curr_ms u' - last_ms_s u' < 1000)
       \<and> (\<exists>m v1. systime_ms False v = Some (m, v1)
            \<and> systime_sec_loop v
                = Some (v1\<lparr>timer_reads := timer_reads v1 + unat (m - last_ms_s v) div 1000,
                          last_ms_s := last_ms_s v + of_nat (unat (m - last_ms_s v) div 1000) * 1000,
                          systime_curr_sec := systime_curr_sec v
                                               + of_nat (unat (m - last_ms_s v) div 1000)\<rparr>))"
proof -
  have nz: "chunk \<noteq> 0" using assms(1-5) by auto
  then have cpos: "0 < unat chunk" by (simp add: unat_gt_0)
  from catch_up_returns[OF nz, of now aligned inc cnt] obtain k where
    k: "k \<le> unat (now - aligned) div unat chunk"
    and r: "catch_up now chunk inc aligned cnt = Some ((catch_up_body chunk inc ^^ k) (aligned, cnt))"
    and e: "\<not> catch_up_test now chunk ((catch_up_body chunk inc ^^ k) (aligned, cnt))"
    and a: "\<forall>i<k. catch_up_test now chunk ((catch_up_body chunk inc ^^ i) (aligned, cnt))"
    by blast
  have d: "unat (now - fst ((catch_up_body chunk inc ^^ Suc i) (aligned, cnt)))
             = unat (now - fst ((catch_up_body chunk inc ^^ i) (aligned, cnt))) - unat chunk"
    if "i < k" for i
  proof -
    from a that have "chunk < now - fst ((catch_up_body chunk inc ^^ i) (aligned, cnt))"
      by (simp add: catch_up_test_def)
    from residual_step[OF this] show ?thesis by (simp add: catch_up_body_def)
  qed
  have 1: "\<exists>k. k \<le> unat (now - aligned) div unat chunk
            \<and> catch_up now chunk inc aligned cnt
                = Some ((catch_up_body chunk inc ^^ k) (aligned, cnt))
            \<and> \<not> catch_up_test now chunk ((catch_up_body chunk inc ^^ k) (aligned, cnt))
            \<and> (\<forall>i<k. catch_up_test now chunk ((catch_up_body chunk inc ^^ i) (aligned, cnt))
                    \<and> 0 < unat chunk
                    \<and> unat (now - fst ((catch_up_body chunk inc ^^ Suc i) (aligned, cnt)))
                        = unat (now - fst ((catch_up_body chunk inc ^^ i) (aligned, cnt))) - unat chunk)"
    using k r e a d cpos by blast
  have "if False then ticks1ms s \<noteq> 0
        else ticks100ms s \<noteq> 0 \<and> ticks10ms s \<noteq> 0 \<and> ticks1ms s \<noteq> 0"
    using assms(1-8) by simp
  from systime3_returns[OF this, of p]
  have 2: "\<exists>res x s'. systime3 False p s = Some (res, x, s')" .
  have 3: "\<exists>m w1. systime_ms False w = Some (m, w1)"
    using systime_ms_returns[of w] assms(1,3,9,10) by simp
  have u50: "ticks50ms u \<noteq> 0"
  proof -
    have "unat (50 * ticks1ms_m u) = 50 * unat (ticks1ms_m u)"
      using assms(13) by (simp add: unat_word_ariths)
    moreover have "0 < unat (ticks1ms_m u)" using assms(11) by (simp add: unat_gt_0)
    ultimately have "unat (50 * ticks1ms_m u) \<noteq> 0" by simp
    then show ?thesis using assms(12) by (auto simp: unat_eq_zero)
  qed
  from systime_ms_returns[OF u50 assms(11)] obtain m u1 where q: "systime_ms False u = Some (m, u1)"
    by blast
  from sec_loop_slow[OF assms(11-14) q] obtain u' where
    l: "systime_sec_loop u = Some u'"
    and b: "timer_reads u' \<le> timer_reads u1 + unat (m - last_ms_s u)"
    by blast
  have 4: "\<exists>m u1 u'. systime_ms False u = Some (m, u1)
            \<and> systime_sec_loop u = Some u'
            \<and> systime_sec False u = Some (systime_curr_sec u', u')
            \<and> timer_reads u' \<le> timer_reads u1 + unat (m - last_ms_s u)
            \<and> systime_curr_ms u' - last_ms_s u' < 1000"
    using q l b sec_loop_exit[OF l] by (auto simp: systime_sec_def)
  from systime_ms_returns[OF assms(16,15)] obtain n v1 where qv: "systime_ms False v = Some (n, v1)"
    by blast
  from systime_sec_loop_steady[OF assms(17) qv] qv
  have 5: "\<exists>m v1. systime_ms False v = Some (m, v1)
            \<and> systime_sec_loop v
                = Some (v1\<lparr>timer_reads := timer_reads v1 + unat (m - last_ms_s v) div 1000,
                          last_ms_s := last_ms_s v + of_nat (unat (m - last_ms_s v) div 1000) * 1000,
                          systime_curr_sec := systime_curr_sec v
                                               + of_nat (unat (m - last_ms_s v) div 1000)\<rparr>)"
    by blast
  from 1 2 3 4 5 show ?thesis by blast
qed


theorem catch_up_loops_terminate_witness:
  "(1000 :: unsigned) \<noteq> 0 \<and> 10 * (1000 :: unsigned) \<noteq> 0 \<and> 50 * (1000 :: unsigned) \<noteq> 0
   \<and> 100 * (1000 :: unsigned) \<noteq> 0
   \<and> (1000 :: unsigned) \<in> {1000, 10 * 1000, 50 * 1000, 100 * 1000, 1000}
   \<and> ticks1ms scenario_c = 1000 \<and> ticks10ms scenario_c = 10 * 1000
   \<and> ticks100ms scenario_c = 100 * 1000
   \<and> ticks1ms_m (one_ms_split False) = 1000 \<and> ticks50ms (one_ms_split False) = 50 * 1000
   \<and> ticks1ms_m walking_split \<noteq> 0 \<and> ticks50ms walking_split = 50 * ticks1ms_m walking_split
   \<and> 50 * unat (ticks1ms_m walking_split) < 2 ^ 32 \<and> timer_slow walking_split
   \<and> ticks1ms_m still_split \<noteq> 0 \<and> ticks50ms still_split \<noteq> 0
   \<and> timer_steady 2500 still_split
   \<and> Option.bind (systime_tick_init walking_timer 32 1 startup_split) (systime_time_init False 1)
       = Some walking_split
   \<and> Option.bind (systime_tick_init halting_timer 16 1 startup_split) (systime_time_init False 1)
       = Some still_split
   \<and> catch_up 5000 1000 1 0 0 = Some (4000, 4)
   \<and> (\<exists>k\<le>5. catch_up 5000 1000 1 0 0 = Some ((catch_up_body 1000 1 ^^ k) (0, 0)))
   \<and> (\<exists>res x s'. systime3 False Null scenario_c = Some (res, x, s'))
   \<and> (\<exists>m w1. systime_ms False (one_ms_split False) = Some (m, w1))
   \<and> (\<exists>u'. systime_sec_loop walking_split = Some u'
          \<and> systime_curr_ms u' - last_ms_s u' < 1000)
   \<and> systime_sec_loop walking_split
       = Some (walking_split\<lparr>timer_reads := 4, last_ms_s := 1000, systime_curr_sec := 1,
                             lastsystime_ticks := 1799, systime_curr_ms := 1799\<rparr>)
   \<and> systime_sec_loop still_split
       = Some (still_split\<lparr>timer_reads := 5, last_timer_ticks_t := 2500,
                           systime_curr_ticks := 2500, lastsystime_ticks := 2499,
                           systime_curr_ms := 2499, last_ms_s := 2000, systime_curr_sec := 2\<rparr>)"
proof -
  have h: "(1000 :: unsigned) \<noteq> 0" "10 * (1000 :: unsigned) \<noteq> 0" "50 * (1000 :: unsigned) \<noteq> 0"
    "100 * (1000 :: unsigned) \<noteq> 0"
    "(1000 :: unsigned) \<in> {1000, 10 * 1000, 50 * 1000, 100 * 1000, 1000}"
    "ticks1ms scenario_c = 1000" "ticks10ms scenario_c = 10 * 1000"
    "ticks100ms scenario_c = 100 * 1000"
    "ticks1ms_m (one_ms_split False) = 1000" "ticks50ms (one_ms_split False) = 50 * 1000"
    "ticks1ms_m walking_split \<noteq> 0" "ticks50ms walking_split = 50 * ticks1ms_m walking_split"
    "50 * unat (ticks1ms_m walking_split) < 2 ^ 32" "timer_slow walking_split"
    "ticks1ms_m still_split \<noteq> 0" "ticks50ms still_split \<noteq> 0"
    "timer_steady 2500 still_split"
    by (simp_all add: walking_split_slow still_split_steady)
      (simp_all add: scenario_c_def one_ms_split_def still_split_def walking_split_def)
  have c: "catch_up 5000 1000 1 0 0 = Some (4000, 4)"
    by (simp add: catch_up.simps)
  note T = catch_up_loops_terminate[OF h, where now = 5000 and aligned = 0 and inc = 1
      and cnt = 0 and p = Null]
  have "unat (5000 - 0 :: unsigned) div unat (1000 :: unsigned) = 5" by simp
  with T have a: "\<exists>k\<le>5. catch_up 5000 1000 1 0 0 = Some ((catch_up_body 1000 1 ^^ k) (0, 0))"
    by (simp only:) blast
  from T have b: "\<exists>res x s'. systime3 False Null scenario_c = Some (res, x, s')"
    by blast
  from T have b': "\<exists>m w1. systime_ms False (one_ms_split False) = Some (m, w1)"
    by blast
  from T have d: "\<exists>u'. systime_sec_loop walking_split = Some u'
          \<and> systime_curr_ms u' - last_ms_s u' < 1000"
    by blast
  from T obtain m v1 where
    "systime_ms False still_split = Some (m, v1)"
    "systime_sec_loop still_split
       = Some (v1\<lparr>timer_reads := timer_reads v1 + unat (m - last_ms_s still_split) div 1000,
                 last_ms_s := last_ms_s still_split
                              + of_nat (unat (m - last_ms_s still_split) div 1000) * 1000,
                 systime_curr_sec := systime_curr_sec still_split
                              + of_nat (unat (m - last_ms_s still_split) div 1000)\<rparr>)"
    by blast
  then have e: "systime_sec_loop still_split
       = Some (still_split\<lparr>timer_reads := 5, last_timer_ticks_t := 2500,
                           systime_curr_ticks := 2500, lastsystime_ticks := 2499,
                           systime_curr_ms := 2499, last_ms_s := 2000, systime_curr_sec := 2\<rparr>)"
    by (simp add: still_split_ms) (auto simp: still_split_def)
  from h c a b b' d e walking_split_loop walking_split_init still_split_init show ?thesis
    by (intro conjI)
qed

end
